theory Spec2Isabelle
  imports Complex_Main "HOL-Library.Option_ord" "HOL-Library.Product_Lexorder"
begin

section \<open>The daily usage-submission gate of the diary application\<close>

text \<open>
  This theory embeds \<^verbatim>\<open>src/services/usageScheduler.ts\<close> together with the parts of
  \<^verbatim>\<open>usageNative.ts\<close> and of the Supabase layer that the scheduler calls.

  Conventions of the embedding:
  \<^item> a thrown \<^verbatim>\<open>Error\<close> (or a rejected promise) is a value \<open>Inl e\<close>, one constructor of
    \<open>error\<close> per throw site;
  \<^item> every \<^verbatim>\<open>async\<close> function runs to completion before the next one starts (the
    source awaits each call in sequence), so an invocation is a function from the world before
    to an outcome and the world after;
  \<^item> row identifiers, order values and clock fields are integers; the durations the native
    module reports are JavaScript numbers (\<open>js_number\<close>: a finite number,
    \<^verbatim>\<open>NaN\<close> or an infinity), since nothing checks what the module hands over;
  \<^item> the AsyncStorage keys used by the scheduler are three slots of the world, and
    AsyncStorage itself is taken to be reliable (its calls do not reject).
\<close>

subsection \<open>Errors, platform, dates\<close>

datatype error =
    InvalidTimeFormat                 \<comment> \<open>\<^verbatim>\<open>setDailyTargetTime\<close>: 'Invalid time format. Expected "HH:mm".'\<close>
  | UsageStatsOnlyOnAndroid           \<comment> \<open>\<^verbatim>\<open>guardAndroid\<close>\<close>
  | NativeModuleNotAvailable          \<comment> \<open>\<^verbatim>\<open>guardNative\<close>\<close>
  | NativeRejected string             \<comment> \<open>the native module's promise rejects\<close>
  | MissingSupabaseUrl                \<comment> \<open>\<^verbatim>\<open>readEnv\<close>\<close>
  | MissingSupabaseAnonKey            \<comment> \<open>\<^verbatim>\<open>readEnv\<close>\<close>
  | CreateClientThrew string          \<comment> \<open>the library's \<^verbatim>\<open>createClient\<close> throws\<close>
  | SupabaseError string string       \<comment> \<open>\<^verbatim>\<open>wrapSupabaseError(ctx, err)\<close>\<close>

datatype platform = Android | Ios | Web | Windows | Macos

text \<open>
  What the scheduler reads from a \<^verbatim>\<open>Date\<close>: the local calendar fields (years from 0
  on).
\<close>

record Date =
  getFullYear :: nat
  getMonth :: nat      \<comment> \<open>0 .. 11\<close>
  getDate :: nat
  getHours :: nat
  getMinutes :: nat

subsection \<open>Helpers of usageScheduler.ts\<close>

text \<open>\<^verbatim>\<open>String(n)\<close> for a natural number: its decimal digits.\<close>

definition digit_char :: "nat \<Rightarrow> char" where
  "digit_char n = ''0123456789'' ! (n mod 10)"

fun String_nat :: "nat \<Rightarrow> string" where
  "String_nat n =
     (if n < 10 then [digit_char n]
      else String_nat (n div 10) @ [digit_char n])"

declare String_nat.simps [simp del]

definition padStart :: "nat \<Rightarrow> char \<Rightarrow> string \<Rightarrow> string" where
  "padStart n c s = replicate (n - length s) c @ s"

definition toISODate :: "Date \<Rightarrow> string" where
  "toISODate d =
     String_nat (getFullYear d) @ ''-'' @
     padStart 2 CHR ''0'' (String_nat (getMonth d + 1)) @ ''-'' @
     padStart 2 CHR ''0'' (String_nat (getDate d))"

definition toHHmm :: "Date \<Rightarrow> string" where
  "toHHmm d =
     padStart 2 CHR ''0'' (String_nat (getHours d)) @ '':'' @
     padStart 2 CHR ''0'' (String_nat (getMinutes d))"

definition toMinutesSinceMidnight :: "Date \<Rightarrow> int" where
  "toMinutesSinceMidnight d = int (getHours d) * 60 + int (getMinutes d)"

text \<open>
  A JavaScript number: finite, \<^verbatim>\<open>NaN\<close>, \<^verbatim>\<open>Infinity\<close> or \<^verbatim>\<open>-Infinity\<close>
  (\<^verbatim>\<open>undefined\<close> turns into \<^verbatim>\<open>NaN\<close> in arithmetic). A finite number is a real
  number and arithmetic on finite numbers is exact; for an integer number of milliseconds
  that a double holds exactly, the floating-point quotient \<^verbatim>\<open>ms / 60000\<close> rounds to the
  same whole minute as the exact one.
\<close>

datatype js_number = Num real | NaN | Infinity | NegInfinity

text \<open>\<^verbatim>\<open>v / 60000\<close>\<close>

definition div_60000 :: "js_number \<Rightarrow> js_number" where
  "div_60000 v =
     (case v of Num x \<Rightarrow> Num (x / 60000) | NaN \<Rightarrow> NaN
      | Infinity \<Rightarrow> Infinity | NegInfinity \<Rightarrow> NegInfinity)"

text \<open>\<^verbatim>\<open>Math.round(v)\<close>: the nearest integer, a tie going up.\<close>

definition Math_round :: "js_number \<Rightarrow> js_number" where
  "Math_round v =
     (case v of Num x \<Rightarrow> Num (real_of_int \<lfloor>x + 1 / 2\<rfloor>) | NaN \<Rightarrow> NaN
      | Infinity \<Rightarrow> Infinity | NegInfinity \<Rightarrow> NegInfinity)"

text \<open>\<^verbatim>\<open>Math.max(0, v)\<close>\<close>

definition Math_max_0 :: "js_number \<Rightarrow> js_number" where
  "Math_max_0 v =
     (case v of Num x \<Rightarrow> Num (max 0 x) | NaN \<Rightarrow> NaN
      | Infinity \<Rightarrow> Infinity | NegInfinity \<Rightarrow> Num 0)"

definition msToMinutes :: "js_number \<Rightarrow> js_number" where
  "msToMinutes ms = Math_max_0 (Math_round (div_60000 ms))"

text \<open>The test \<^verbatim>\<open>/^\d{2}:\d{2}$/.test(s)\<close>: exactly two digits, a colon, two digits.\<close>

definition is_digit :: "char \<Rightarrow> bool" where
  "is_digit c = (c \<in> set ''0123456789'')"

fun test_HHmm :: "string \<Rightarrow> bool" where
  "test_HHmm [a, b, c, d, e] =
     (is_digit a \<and> is_digit b \<and> c = CHR '':'' \<and> is_digit d \<and> is_digit e)"
| "test_HHmm _ = False"

text \<open>
  \<^verbatim>\<open>Number(s)\<close> on a string of decimal digits. \<open>None\<close> stands for every other string
  (where JavaScript gives \<^verbatim>\<open>NaN\<close> or reads another numeric form); the scheduler only
  converts the two fields of a target time that passed \<open>test_HHmm\<close>.
\<close>

definition digit_val :: "char \<Rightarrow> int" where
  "digit_val c = int (of_char c) - 48"

definition Number_str :: "string \<Rightarrow> int option" where
  "Number_str s =
     (if s \<noteq> [] \<and> list_all is_digit s
      then Some (foldl (\<lambda>acc c. 10 * acc + digit_val c) 0 s)
      else None)"

text \<open>\<^verbatim>\<open>s.split(":")\<close>\<close>

fun split_colon :: "string \<Rightarrow> string list" where
  "split_colon [] = [[]]"
| "split_colon (c # cs) =
     (if c = CHR '':'' then [] # split_colon cs
      else (case split_colon cs of
              [] \<Rightarrow> [[c]]
            | p # ps \<Rightarrow> (c # p) # ps))"

text \<open>
  \<^verbatim>\<open>const [h, m] = hhmm.split(":").map(Number); return h * 60 + m\<close>. A missing or
  non-numeric field makes the result \<^verbatim>\<open>NaN\<close>, here \<open>None\<close>.
\<close>

definition hhmmToMinutes :: "string \<Rightarrow> int option" where
  "hhmmToMinutes hhmm =
     (case map Number_str (split_colon hhmm) of
        Some h # Some m # _ \<Rightarrow> Some (h * 60 + m)
      | _ \<Rightarrow> None)"

subsection \<open>The native usage-stats module (usageNative.ts)\<close>

record LastApp =
  packageName :: string
  label :: "string option"
  lastUsedAt :: int

record UsageSummary =
  totalScreenTimeMs :: js_number
  socialMs :: js_number
  musicMs :: js_number
  lastApp :: "LastApp option"
  generatedAt :: int

text \<open>
  A native module exposes a method or not (\<^verbatim>\<open>typeof _native.f === "function"\<close>); where it
  does, the field holds what a call of it yields during this invocation.
\<close>

record UsageStatsModule =
  isUsageAccessGranted :: "(error + bool) option"
  getTodayUsageSummary_native :: "(error + UsageSummary) option"

text \<open>
  What an invocation finds around it and cannot change. \<open>createClient\<close> is the constructor
  of the Supabase library, which is not part of the repository: for a URL and a key it gives
  \<open>None\<close> when it returns a client and \<open>Some m\<close> when it throws an error of message \<open>m\<close>
  (as it does for a URL that is not an HTTP or HTTPS address).
\<close>

record env =
  Platform_OS :: platform
  EXPO_PUBLIC_SUPABASE_URL :: "string option"
  EXPO_PUBLIC_SUPABASE_ANON_KEY :: "string option"
  createClient :: "string \<Rightarrow> string \<Rightarrow> string option"
  native :: "UsageStatsModule option"

definition isUsageStatsAvailable :: "env \<Rightarrow> bool" where
  "isUsageStatsAvailable E =
     (Platform_OS E = Android \<and>
      (case native E of
         None \<Rightarrow> False
       | Some m \<Rightarrow> isUsageAccessGranted m \<noteq> None \<and> getTodayUsageSummary_native m \<noteq> None))"

text \<open>
  \<^verbatim>\<open>hasUsageAccess\<close>: the early return, then the call inside \<^verbatim>\<open>try\<close>, whose
  \<^verbatim>\<open>catch\<close> returns false. The result type keeps the error branch so that "never raises"
  is a statement about the function and not about its type.
\<close>

definition hasUsageAccess :: "env \<Rightarrow> error + bool" where
  "hasUsageAccess E =
     (if Platform_OS E \<noteq> Android \<or> \<not> isUsageStatsAvailable E then Inr False
      else (case native E of
              None \<Rightarrow> Inr False
            | Some m \<Rightarrow>
                (case isUsageAccessGranted m of
                   None \<Rightarrow> Inr False
                 | Some (Inl e) \<Rightarrow> Inr False
                 | Some (Inr b) \<Rightarrow> Inr b)))"

subsection \<open>The world an invocation runs in\<close>

record UsageQuestionIds =
  totalMinutes :: int
  socialMinutes :: int
  musicMinutes :: int
  lastApp_id :: int

text \<open>
  The text stored under \<^verbatim>\<open>usage:questionIds.v1\<close>, by what \<^verbatim>\<open>JSON.parse\<close> and
  \<^verbatim>\<open>areValidQids\<close> make of it: four numbers, or anything else (text that does not parse,
  or that lacks one of the four numbers).
\<close>

datatype stored_qids = ValidQids UsageQuestionIds | OtherText string

text \<open>A row of \<^verbatim>\<open>public.questions\<close>, which \<^verbatim>\<open>toQuestion\<close> hands over field by field.\<close>

record Question =
  id_q :: int
  groupId :: "int option"
  question :: string
  answerType :: string
  min_q :: "int option"
  max_q :: "int option"
  step :: "int option"
  options :: "string list option"
  placeholder :: "string option"
  unit_q :: "string option"
  order_q :: "int option"
  active :: "bool option"
  askOncePerDay :: "bool option"
  timeOfDay :: string
  refDay :: string

text \<open>The argument of \<^verbatim>\<open>supaInsertQuestion\<close>: a question without its identifier.\<close>

record QuestionInput =
  groupId_in :: "int option"
  question_in :: string
  answerType_in :: string
  min_in :: "int option"
  max_in :: "int option"
  step_in :: "int option"
  options_in :: "string list option"
  placeholder_in :: "string option"
  unit_in :: "string option"
  order_in :: "int option"
  active_in :: "bool option"
  askOncePerDay_in :: "bool option"
  timeOfDay_in :: "string option"
  refDay_in :: "string option"

datatype EntryValue = NumberValue js_number | StringValue string

record DiaryEntry =
  id_e :: int
  questionID :: int
  date :: string
  time :: string
  val :: EntryValue
  forDay :: "string option"

text \<open>
  A row of \<^verbatim>\<open>public.diary_entries\<close> (the two timestamps the database fills in are left
  out).
\<close>

record DiaryRow =
  row_id :: int
  question_id :: int
  date_r :: string
  time_r :: string
  value_r :: EntryValue
  for_day :: string

datatype log_event =
    SkipNotConfigured       \<comment> \<open>"[runIfDueNow] Supabase not configured. Skipping."\<close>
  | SkipNoNativeModule      \<comment> \<open>"[runIfDueNow] UsageStats native module not available. Skipping."\<close>
  | SkipNoUsageAccess       \<comment> \<open>"[runIfDueNow] Usage Access not granted. ..."\<close>
  | SentUsage js_number js_number js_number string   \<comment> \<open>"[collectAndSubmit] Sent usage: total=.., social=.., music=.., last=.."\<close>

text \<open>
  The world: the three AsyncStorage slots, the two remote tables with their identity
  sequences, the console, and \<open>replies\<close>, the answers the remote store will give to the
  coming requests, in order (\<open>None\<close>: the request succeeds; \<open>Some m\<close>: it comes back with an
  error of message \<open>m\<close> and has changed nothing; once the list is used up every request
  succeeds).
\<close>

record world =
  lastSubmittedISODate :: "string option"
  dailyTargetHHmm :: "string option"
  questionIds :: "stored_qids option"
  questions :: "Question list"
  diary_entries :: "DiaryRow list"
  next_question_id :: int
  next_entry_id :: int
  replies :: "string option list"
  console :: "log_event list"

text \<open>What outlives an invocation: local storage and the remote tables.\<close>

definition persisted ::
  "world \<Rightarrow> string option \<times> string option \<times> stored_qids option \<times>
     Question list \<times> DiaryRow list \<times> int \<times> int" where
  "persisted w =
     (lastSubmittedISODate w, dailyTargetHHmm w, questionIds w,
      questions w, diary_entries w, next_question_id w, next_entry_id w)"

type_synonym 'a action = "world \<Rightarrow> (error + 'a) \<times> world"

definition return :: "'a \<Rightarrow> 'a action" where
  "return x w = (Inr x, w)"

definition throw :: "error \<Rightarrow> 'a action" where
  "throw e w = (Inl e, w)"

text \<open>\<^verbatim>\<open>const x = await m; ...\<close>: an error of \<open>m\<close> ends the sequence.\<close>

definition bind :: "'a action \<Rightarrow> ('a \<Rightarrow> 'b action) \<Rightarrow> 'b action" where
  "bind m f w = (case m w of (Inl e, w') \<Rightarrow> (Inl e, w') | (Inr x, w') \<Rightarrow> f x w')"

definition log :: "log_event \<Rightarrow> unit action" where
  "log ev w = (Inr (), w\<lparr>console := console w @ [ev]\<rparr>)"

subsection \<open>Target time (usageScheduler.ts)\<close>

definition DEFAULT_DAILY_TIME_HHMM :: string where
  "DEFAULT_DAILY_TIME_HHMM = ''21:00''"

definition setDailyTargetTime :: "string \<Rightarrow> unit action" where
  "setDailyTargetTime hhmm w =
     (if \<not> test_HHmm hhmm then (Inl InvalidTimeFormat, w)
      else (Inr (), w\<lparr>dailyTargetHHmm := Some hhmm\<rparr>))"

definition getDailyTargetTime :: "string action" where
  "getDailyTargetTime w =
     (case dailyTargetHHmm w of
        None \<Rightarrow> (Inr DEFAULT_DAILY_TIME_HHMM, w)
      | Some v \<Rightarrow> (Inr (if v \<noteq> [] \<and> test_HHmm v then v else DEFAULT_DAILY_TIME_HHMM), w))"

subsection \<open>The Supabase layer\<close>

text \<open>
  \<^verbatim>\<open>s.trim()\<close>. A character of a string here is a code unit below 256; of these,
  JavaScript's white space and line terminators are the tab, the line feed, the vertical tab,
  the form feed, the carriage return, the space and the no-break space.
\<close>

definition is_space :: "char \<Rightarrow> bool" where
  "is_space c =
     (c \<in> set [CHR '' '', CHR 0x09, CHR 0x0A, CHR 0x0B, CHR 0x0C, CHR 0x0D, CHR 0xA0])"

definition trim :: "string \<Rightarrow> string" where
  "trim s = rev (dropWhile is_space (rev (dropWhile is_space s)))"

definition truthy :: "string option \<Rightarrow> bool" where
  "truthy v = (case v of None \<Rightarrow> False | Some s \<Rightarrow> s \<noteq> [])"

definition isSupabaseConfigured :: "env \<Rightarrow> bool" where
  "isSupabaseConfigured E =
     (truthy (EXPO_PUBLIC_SUPABASE_URL E) \<and> truthy (EXPO_PUBLIC_SUPABASE_ANON_KEY E))"

text \<open>
  \<^verbatim>\<open>getSupabaseClient\<close>: \<^verbatim>\<open>readEnv\<close> throws where a trimmed variable is empty, then
  \<^verbatim>\<open>createClient(url, anon)\<close> makes the client or throws. (The source keeps the client
  once made; the environment does not change, so making it again gives the same answer.)
\<close>

definition getSupabaseClient :: "env \<Rightarrow> unit action" where
  "getSupabaseClient E =
     (case (map_option trim (EXPO_PUBLIC_SUPABASE_URL E),
            map_option trim (EXPO_PUBLIC_SUPABASE_ANON_KEY E)) of
        (Some url, Some anon) \<Rightarrow>
          (if url = [] then throw MissingSupabaseUrl
           else if anon = [] then throw MissingSupabaseAnonKey
           else (case createClient E url anon of
                   None \<Rightarrow> return ()
                 | Some m \<Rightarrow> throw (CreateClientThrew m)))
      | (Some url, None) \<Rightarrow>
          (if url = [] then throw MissingSupabaseUrl else throw MissingSupabaseAnonKey)
      | (None, _) \<Rightarrow> throw MissingSupabaseUrl)"

text \<open>
  One request to the remote store: it takes the next reply; an error reply is thrown through
  \<^verbatim>\<open>wrapSupabaseError(ctx, error)\<close>.
\<close>

definition request :: "string \<Rightarrow> unit action" where
  "request ctx w =
     (case replies w of
        [] \<Rightarrow> (Inr (), w)
      | None # rs \<Rightarrow> (Inr (), w\<lparr>replies := rs\<rparr>)
      | Some m # rs \<Rightarrow> (Inl (SupabaseError ctx m), w\<lparr>replies := rs\<rparr>))"

text \<open>
  \<^verbatim>\<open>supaGetQuestions\<close>: the rows whose \<^verbatim>\<open>active\<close> is null or true, by
  \<^verbatim>\<open>order\<close> (nulls first), then by \<^verbatim>\<open>id\<close>.
\<close>

definition listed :: "Question \<Rightarrow> bool" where
  "listed q = (active q \<noteq> Some False)"

definition supaGetQuestions :: "env \<Rightarrow> Question list action" where
  "supaGetQuestions E =
     bind (getSupabaseClient E) (\<lambda>_.
     bind (request ''questions select'') (\<lambda>_ w.
       (Inr (sort_key (\<lambda>q. (order_q q, id_q q)) (filter listed (questions w))), w)))"

text \<open>\<^verbatim>\<open>supaInsertQuestion\<close>: the payload with its defaults, and the row the store gives back.\<close>

definition insert_row :: "QuestionInput \<Rightarrow> int \<Rightarrow> Question" where
  "insert_row inp i =
     \<lparr>id_q = i,
      groupId = groupId_in inp,
      question = question_in inp,
      answerType = answerType_in inp,
      min_q = min_in inp,
      max_q = max_in inp,
      step = step_in inp,
      options = options_in inp,
      placeholder = placeholder_in inp,
      unit_q = unit_in inp,
      order_q = Some (case order_in inp of None \<Rightarrow> 0 | Some n \<Rightarrow> n),
      active = Some (case active_in inp of None \<Rightarrow> True | Some b \<Rightarrow> b),
      askOncePerDay = Some (case askOncePerDay_in inp of None \<Rightarrow> False | Some b \<Rightarrow> b),
      timeOfDay = (case timeOfDay_in inp of None \<Rightarrow> ''both'' | Some t \<Rightarrow> t),
      refDay = (case refDay_in inp of None \<Rightarrow> ''today'' | Some r \<Rightarrow> r)\<rparr>"

definition supaInsertQuestion :: "env \<Rightarrow> QuestionInput \<Rightarrow> Question action" where
  "supaInsertQuestion E inp =
     bind (getSupabaseClient E) (\<lambda>_.
     bind (request ''questions insert'') (\<lambda>_ w.
       (let q = insert_row inp (next_question_id w)
        in (Inr q, w\<lparr>questions := questions w @ [q],
                      next_question_id := next_question_id w + 1\<rparr>))))"

definition forDay_text :: "DiaryEntry \<Rightarrow> string" where
  "forDay_text entry = (case forDay entry of None \<Rightarrow> ''today'' | Some d \<Rightarrow> d)"

definition toDiaryEntryInsert :: "DiaryEntry \<Rightarrow> int \<Rightarrow> DiaryRow" where
  "toDiaryEntryInsert entry i =
     \<lparr>row_id = i,
      question_id = questionID entry,
      date_r = date entry,
      time_r = time entry,
      value_r = val entry,
      for_day = forDay_text entry\<rparr>"

text \<open>The rows the delete of \<^verbatim>\<open>supaSetDiaryEntry\<close> selects.\<close>

definition same_slot :: "DiaryEntry \<Rightarrow> DiaryRow \<Rightarrow> bool" where
  "same_slot entry r =
     (question_id r = questionID entry \<and> date_r r = date entry \<and> for_day r = forDay_text entry)"

definition supaSetDiaryEntry :: "env \<Rightarrow> DiaryEntry \<Rightarrow> unit action" where
  "supaSetDiaryEntry E entry =
     bind (getSupabaseClient E) (\<lambda>_.
     bind (request ''diary_entries delete (set)'') (\<lambda>_.
     bind (\<lambda>w. (Inr (), w\<lparr>diary_entries :=
                              filter (\<lambda>r. \<not> same_slot entry r) (diary_entries w)\<rparr>)) (\<lambda>_.
     bind (request ''diary_entries insert (set)'') (\<lambda>_ w.
       (Inr (), w\<lparr>diary_entries :=
                     diary_entries w @ [toDiaryEntryInsert entry (next_entry_id w)],
                   next_entry_id := next_entry_id w + 1\<rparr>)))))"

subsection \<open>Question management (usageScheduler.ts)\<close>

definition Q_TEXT_TOTAL :: string where
  "Q_TEXT_TOTAL = ''Wie lange warst du heute am Handy? (Automatisch)''"

definition Q_TEXT_SOCIAL :: string where
  "Q_TEXT_SOCIAL = ''Zeit auf Social Media heute (Automatisch)''"

definition Q_TEXT_MUSIC :: string where
  "Q_TEXT_MUSIC = ''Zeit Musik/Audio heute (Automatisch)''"

definition Q_TEXT_LAST_APP :: string where
  "Q_TEXT_LAST_APP = ''Letzte App vor dem Schlafen (Automatisch)''"

text \<open>
  \<^verbatim>\<open>new Map(all.map((q) => [q.question, q]))\<close>: the entries are set one after the other,
  so a later question with the same text replaces an earlier one.
\<close>

definition mapByText :: "Question list \<Rightarrow> (string \<rightharpoonup> Question)" where
  "mapByText all = fold (\<lambda>q m. m(question q \<mapsto> q)) all Map.empty"

text \<open>The local function \<^verbatim>\<open>ensure\<close>, with the \<^verbatim>\<open>all\<close> it closes over.\<close>

definition new_question :: "Question list \<Rightarrow> string \<Rightarrow> string \<Rightarrow> string option \<Rightarrow> QuestionInput"
  where
  "new_question all text aType u =
     \<lparr>groupId_in = None,
      question_in = text,
      answerType_in = aType,
      min_in = (if aType = ''number'' then Some 0 else None),
      max_in = None,
      step_in = None,
      options_in = None,
      placeholder_in = None,
      unit_in = u,
      order_in = Some (int (length all) + 1),
      active_in = Some True,
      askOncePerDay_in = None,
      timeOfDay_in = Some ''evening'',
      refDay_in = Some ''today''\<rparr>"

definition ensure ::
  "env \<Rightarrow> Question list \<Rightarrow> string \<Rightarrow> string \<Rightarrow> string option \<Rightarrow> int action" where
  "ensure E all text aType u =
     (case mapByText all text of
        Some existing \<Rightarrow> return (id_q existing)
      | None \<Rightarrow>
          bind (supaInsertQuestion E (new_question all text aType u)) (\<lambda>created.
          return (id_q created)))"

definition ensureUsageQuestions :: "env \<Rightarrow> UsageQuestionIds action" where
  "ensureUsageQuestions E w =
     (case questionIds w of
        Some (ValidQids parsed) \<Rightarrow> (Inr parsed, w)
      | _ \<Rightarrow>
         bind (supaGetQuestions E) (\<lambda>all.
         bind (ensure E all Q_TEXT_TOTAL ''number'' (Some ''Min'')) (\<lambda>totalId.
         bind (ensure E all Q_TEXT_SOCIAL ''number'' (Some ''Min'')) (\<lambda>socialId.
         bind (ensure E all Q_TEXT_MUSIC ''number'' (Some ''Min'')) (\<lambda>musicId.
         bind (ensure E all Q_TEXT_LAST_APP ''text'' None) (\<lambda>lastAppId w'.
           (let qids = \<lparr>totalMinutes = totalId, socialMinutes = socialId,
                        musicMinutes = musicId, lastApp_id = lastAppId\<rparr>
            in (Inr qids, w'\<lparr>questionIds := Some (ValidQids qids)\<rparr>))))))) w)"

subsection \<open>Collecting and submitting (usageScheduler.ts)\<close>

text \<open>
  \<^verbatim>\<open>getTodayUsageSummary\<close> of usageNative.ts: the two guards, then the native call. (The
  scheduler always passes the same package lists, so the answer of the native module is a
  value of the environment.)
\<close>

definition getTodayUsageSummary :: "env \<Rightarrow> UsageSummary action" where
  "getTodayUsageSummary E =
     (if Platform_OS E \<noteq> Android then throw UsageStatsOnlyOnAndroid
      else if \<not> isUsageStatsAvailable E then throw NativeModuleNotAvailable
      else (case native E of
              None \<Rightarrow> throw NativeModuleNotAvailable
            | Some m \<Rightarrow>
                (case getTodayUsageSummary_native m of
                   None \<Rightarrow> throw NativeModuleNotAvailable
                 | Some (Inl e) \<Rightarrow> throw e
                 | Some (Inr summary) \<Rightarrow> return summary)))"

record CollectOptions =
  at_opt :: "Date option"
  targetHHmm :: "string option"
  enforce :: "bool option"

text \<open>\<^verbatim>\<open>summary.lastApp?.label || summary.lastApp?.packageName || "Unbekannt"\<close>\<close>

definition lastAppLabel :: "UsageSummary \<Rightarrow> string" where
  "lastAppLabel summary =
     (case lastApp summary of
        None \<Rightarrow> ''Unbekannt''
      | Some a \<Rightarrow>
          (case label a of
             Some l \<Rightarrow>
               (if l \<noteq> [] then l
                else if packageName a \<noteq> [] then packageName a else ''Unbekannt'')
           | None \<Rightarrow> (if packageName a \<noteq> [] then packageName a else ''Unbekannt'')))"

definition entries_of ::
  "UsageQuestionIds \<Rightarrow> string \<Rightarrow> string \<Rightarrow> UsageSummary \<Rightarrow> DiaryEntry list" where
  "entries_of qids todayISO timeHHmm summary =
     [\<lparr>id_e = 0, questionID = totalMinutes qids, date = todayISO, time = timeHHmm,
       val = NumberValue (msToMinutes (totalScreenTimeMs summary)), forDay = Some ''today''\<rparr>,
      \<lparr>id_e = 0, questionID = socialMinutes qids, date = todayISO, time = timeHHmm,
       val = NumberValue (msToMinutes (socialMs summary)), forDay = Some ''today''\<rparr>,
      \<lparr>id_e = 0, questionID = musicMinutes qids, date = todayISO, time = timeHHmm,
       val = NumberValue (msToMinutes (musicMs summary)), forDay = Some ''today''\<rparr>,
      \<lparr>id_e = 0, questionID = lastApp_id qids, date = todayISO, time = timeHHmm,
       val = StringValue (lastAppLabel summary), forDay = Some ''today''\<rparr>]"

text \<open>\<^verbatim>\<open>for (const entry of entries) { await supaSetDiaryEntry(entry); }\<close>\<close>

fun submit_all :: "env \<Rightarrow> DiaryEntry list \<Rightarrow> unit action" where
  "submit_all E [] = return ()"
| "submit_all E (entry # rest) = bind (supaSetDiaryEntry E entry) (\<lambda>_. submit_all E rest)"

text \<open>\<open>clock\<close> is what \<^verbatim>\<open>new Date()\<close> reads.\<close>

definition collectAndSubmit :: "env \<Rightarrow> Date \<Rightarrow> CollectOptions \<Rightarrow> unit action" where
  "collectAndSubmit E clock opts =
     (let now = (case at_opt opts of None \<Rightarrow> clock | Some d \<Rightarrow> d);
          todayISO = toISODate now;
          timeHHmm = (case targetHHmm opts of None \<Rightarrow> toHHmm now | Some t \<Rightarrow> t)
      in bind (getTodayUsageSummary E) (\<lambda>summary.
         bind (ensureUsageQuestions E) (\<lambda>qids.
         bind (submit_all E (entries_of qids todayISO timeHHmm summary)) (\<lambda>_.
         log (SentUsage (msToMinutes (totalScreenTimeMs summary))
                        (msToMinutes (socialMs summary))
                        (msToMinutes (musicMs summary))
                        (lastAppLabel summary))))))"

definition runOnceNow :: "env \<Rightarrow> Date \<Rightarrow> unit action" where
  "runOnceNow E clock =
     collectAndSubmit E clock \<lparr>at_opt = None, targetHHmm = None, enforce = Some True\<rparr>"

subsection \<open>The due check (usageScheduler.ts)\<close>

text \<open>
  \<^verbatim>\<open>isSubmissionDue\<close> reads the mark and changes nothing. Where the target does not
  convert, \<^verbatim>\<open>minsNow < NaN\<close> is false and the function answers true.
\<close>

definition isSubmissionDue :: "Date \<Rightarrow> string \<Rightarrow> world \<Rightarrow> bool" where
  "isSubmissionDue now target w =
     (if lastSubmittedISODate w = Some (toISODate now) then False
      else (case hhmmToMinutes target of
              None \<Rightarrow> True
            | Some minsTarget \<Rightarrow>
                (if toMinutesSinceMidnight now < minsTarget then False else True)))"

definition markSubmittedForToday :: "Date \<Rightarrow> unit action" where
  "markSubmittedForToday now w = (Inr (), w\<lparr>lastSubmittedISODate := Some (toISODate now)\<rparr>)"

text \<open>\<^verbatim>\<open>runIfDueNow\<close>: true where a submission was performed.\<close>

definition runIfDueNow :: "env \<Rightarrow> Date \<Rightarrow> bool action" where
  "runIfDueNow E clock =
     (if Platform_OS E \<noteq> Android then return False
      else if \<not> isSupabaseConfigured E then bind (log SkipNotConfigured) (\<lambda>_. return False)
      else if \<not> isUsageStatsAvailable E then bind (log SkipNoNativeModule) (\<lambda>_. return False)
      else (case hasUsageAccess E of
              Inl e \<Rightarrow> throw e
            | Inr hasAccess \<Rightarrow>
                (if \<not> hasAccess then bind (log SkipNoUsageAccess) (\<lambda>_. return False)
                 else bind getDailyTargetTime (\<lambda>target w.
                        (if \<not> isSubmissionDue clock target w then (Inr False, w)
                         else bind (collectAndSubmit E clock
                                      \<lparr>at_opt = Some clock, targetHHmm = Some target,
                                       enforce = Some False\<rparr>) (\<lambda>_.
                              bind (markSubmittedForToday clock) (\<lambda>_.
                              return True)) w)))))"

text \<open>\<^verbatim>\<open>__debugResetState\<close>\<close>

definition debugResetState :: "unit action" where
  "debugResetState w = (Inr (), w\<lparr>questionIds := None, lastSubmittedISODate := None\<rparr>)"

subsection \<open>Vocabulary of the properties\<close>

text \<open>Two clock readings on the same local calendar day.\<close>

definition same_local_day :: "Date \<Rightarrow> Date \<Rightarrow> bool" where
  "same_local_day d d' =
     (getFullYear d = getFullYear d' \<and> getMonth d = getMonth d' \<and> getDate d = getDate d')"

text \<open>The four preconditions of \<^verbatim>\<open>runIfDueNow\<close>, all met.\<close>

definition preconditions_hold :: "env \<Rightarrow> bool" where
  "preconditions_hold E =
     (Platform_OS E = Android \<and> isSupabaseConfigured E \<and> isUsageStatsAvailable E \<and>
      hasUsageAccess E = Inr True)"

text \<open>The target time \<^verbatim>\<open>getDailyTargetTime\<close> reads in a world.\<close>

definition stored_target :: "world \<Rightarrow> string" where
  "stored_target w =
     (case fst (getDailyTargetTime w) of Inr t \<Rightarrow> t | Inl _ \<Rightarrow> DEFAULT_DAILY_TIME_HHMM)"




text \<open>
  A host that invokes the entry point again and again, each time with the environment and the
  clock of that moment; the outcomes in order, and the world at the end.
\<close>

fun run_all :: "(env \<times> Date) list \<Rightarrow> world \<Rightarrow> (error + bool) list \<times> world" where
  "run_all [] w = ([], w)"
| "run_all ((E, clock) # rest) w =
     (case runIfDueNow E clock w of
        (r, w') \<Rightarrow> (case run_all rest w' of (rs, w'') \<Rightarrow> (r # rs, w'')))"

text \<open>
  What \<^verbatim>\<open>supaGetQuestions\<close> returns for a table, and the identifier the lookup by text
  finds in that listing (that of the last listed question with the text).
\<close>

definition listing :: "Question list \<Rightarrow> Question list" where
  "listing qs = sort_key (\<lambda>q. (order_q q, id_q q)) (filter listed qs)"

text \<open>The lookup \<^verbatim>\<open>mapByText.get(text)\<close> over a fresh listing of a table.\<close>

definition find_by_text :: "string \<Rightarrow> Question list \<Rightarrow> int option" where
  "find_by_text t qs = map_option id_q (mapByText (listing qs) t)"

definition auto_texts :: "string list" where
  "auto_texts = [Q_TEXT_TOTAL, Q_TEXT_SOCIAL, Q_TEXT_MUSIC, Q_TEXT_LAST_APP]"

definition cache_valid :: "world \<Rightarrow> bool" where
  "cache_valid w = (case questionIds w of Some (ValidQids _) \<Rightarrow> True | _ \<Rightarrow> False)"

text \<open>
  A row as \<^verbatim>\<open>ensure\<close> creates it for a listing \<open>all\<close>: one of the four texts, absent
  from the listing, placed at position "number of listed questions plus one".
\<close>

definition created_ok :: "Question list \<Rightarrow> Question \<Rightarrow> bool" where
  "created_ok all q =
     (question q \<in> set auto_texts \<and> mapByText all (question q) = None \<and>
      order_q q = Some (int (length all) + 1) \<and> active q = Some True \<and>
      timeOfDay q = ''evening'' \<and> refDay q = ''today'')"

text \<open>The table of \<open>w'\<close> is the table of \<open>w\<close> followed by rows created so.\<close>

definition grows :: "Question list \<Rightarrow> world \<Rightarrow> world \<Rightarrow> bool" where
  "grows all w w' = (\<exists>new. questions w' = questions w @ new \<and> list_all (created_ok all) new)"

subsection \<open>Concrete inputs used below\<close>

text \<open>An Android device with a configured store and a native module that answers.\<close>

definition summary0 :: UsageSummary where
  "summary0 =
     \<lparr>totalScreenTimeMs = Num 7260000, socialMs = Num 1800000, musicMs = Num 0,
      lastApp = Some \<lparr>packageName = ''com.example'', label = Some ''Example'', lastUsedAt = 0\<rparr>,
      generatedAt = 0\<rparr>"

definition env_ok :: env where
  "env_ok =
     \<lparr>Platform_OS = Android,
      EXPO_PUBLIC_SUPABASE_URL = Some ''https://x.supabase.co'',
      EXPO_PUBLIC_SUPABASE_ANON_KEY = Some ''key'',
      createClient = (\<lambda>url anon. None),
      native = Some \<lparr>isUsageAccessGranted = Some (Inr True),
                     getTodayUsageSummary_native = Some (Inr summary0)\<rparr>\<rparr>"

text \<open>The same device with a permission query that throws.\<close>

definition env_query_throws :: env where
  "env_query_throws =
     env_ok\<lparr>native := Some \<lparr>isUsageAccessGranted = Some (Inl (NativeRejected ''boom'')),
                              getTodayUsageSummary_native = Some (Inr summary0)\<rparr>\<rparr>"

text \<open>Other environments: one per precondition that fails.\<close>

definition env_ios :: env where
  "env_ios = env_ok\<lparr>Platform_OS := Ios, EXPO_PUBLIC_SUPABASE_URL := None\<rparr>"

definition env_unconfigured :: env where
  "env_unconfigured = env_ok\<lparr>EXPO_PUBLIC_SUPABASE_URL := None, native := None\<rparr>"

definition env_no_module :: env where
  "env_no_module = env_ok\<lparr>native := None\<rparr>"

definition env_no_access :: env where
  "env_no_access =
     env_ok\<lparr>native := Some \<lparr>isUsageAccessGranted = Some (Inr False),
                              getTodayUsageSummary_native = Some (Inr summary0)\<rparr>\<rparr>"

text \<open>A device whose collector fails.\<close>

definition env_collector_fails :: env where
  "env_collector_fails =
     env_ok\<lparr>native := Some \<lparr>isUsageAccessGranted = Some (Inr True),
                              getTodayUsageSummary_native =
                                Some (Inl (NativeRejected ''no stats''))\<rparr>\<rparr>"

text \<open>Clock readings of one day and of the next.\<close>

definition d2059 :: Date where
  "d2059 = \<lparr>getFullYear = 2026, getMonth = 10, getDate = 2, getHours = 20, getMinutes = 59\<rparr>"

definition d2100 :: Date where
  "d2100 = \<lparr>getFullYear = 2026, getMonth = 10, getDate = 2, getHours = 21, getMinutes = 0\<rparr>"

definition d2345 :: Date where
  "d2345 = \<lparr>getFullYear = 2026, getMonth = 10, getDate = 2, getHours = 23, getMinutes = 45\<rparr>"

text \<open>
  A world with target time 21:00, nothing submitted yet, the four identifiers cached and a
  store that answers every request.
\<close>

definition qids0 :: UsageQuestionIds where
  "qids0 = \<lparr>totalMinutes = 1, socialMinutes = 2, musicMinutes = 3, lastApp_id = 4\<rparr>"

definition w0 :: world where
  "w0 =
     \<lparr>lastSubmittedISODate = None, dailyTargetHHmm = Some ''21:00'',
      questionIds = Some (ValidQids qids0),
      questions = [], diary_entries = [], next_question_id = 5, next_entry_id = 1,
      replies = [], console = []\<rparr>"




text \<open>An entry to set, and a table that holds two rows for its slot and one for another.\<close>

definition e9 :: DiaryEntry where
  "e9 = \<lparr>id_e = 0, questionID = 1, date = ''2026-11-02'', time = ''21:00'',
          val = NumberValue (Num 121), forDay = None\<rparr>"

definition w9 :: world where
  "w9 = w0\<lparr>diary_entries :=
      [\<lparr>row_id = 1, question_id = 1, date_r = ''2026-11-02'', time_r = ''08:00'', value_r = NumberValue (Num 5), for_day = ''today''\<rparr>,
       \<lparr>row_id = 2, question_id = 1, date_r = ''2026-11-02'', time_r = ''09:00'', value_r = NumberValue (Num 7), for_day = ''today''\<rparr>,
       \<lparr>row_id = 3, question_id = 1, date_r = ''2026-11-02'', time_r = ''09:00'', value_r = NumberValue (Num 8), for_day = ''yesterday''\<rparr>],
      next_entry_id := 4\<rparr>"

text \<open>
  Tables for the question registry: one user question with order 50 (and the same after the
  list is renumbered from 1); the four automatic questions, the first of them deactivated.
\<close>

definition q_mood :: Question where
  "q_mood =
     \<lparr>id_q = 1, groupId = None, question = ''Stimmung?'', answerType = ''scale'',
      min_q = Some 1, max_q = Some 5, step = Some 1, options = None, placeholder = None,
      unit_q = None, order_q = Some 50, active = Some True, askOncePerDay = Some False,
      timeOfDay = ''both'', refDay = ''today''\<rparr>"

definition w5 :: world where
  "w5 = w0\<lparr>questionIds := None, questions := [q_mood], next_question_id := 2\<rparr>"

definition w5_renumbered :: world where
  "w5_renumbered = w5\<lparr>questions := [q_mood\<lparr>order_q := Some 1\<rparr>]\<rparr>"

definition auto_row :: "int \<Rightarrow> string \<Rightarrow> bool \<Rightarrow> Question" where
  "auto_row i t a =
     \<lparr>id_q = i, groupId = None, question = t, answerType = ''number'',
      min_q = Some 0, max_q = None, step = None, options = None, placeholder = None,
      unit_q = Some ''Min'', order_q = Some i, active = Some a, askOncePerDay = Some False,
      timeOfDay = ''evening'', refDay = ''today''\<rparr>"

definition w4 :: world where
  "w4 = w0\<lparr>questions := [auto_row 1 Q_TEXT_TOTAL False, auto_row 2 Q_TEXT_SOCIAL True,
                         auto_row 3 Q_TEXT_MUSIC True, auto_row 4 Q_TEXT_LAST_APP True]\<rparr>"

definition ids4 :: UsageQuestionIds where
  "ids4 = \<lparr>totalMinutes = 5, socialMinutes = 2, musicMinutes = 3, lastApp_id = 4\<rparr>"

definition w4_lost :: world where
  "w4_lost = w4\<lparr>questionIds := None\<rparr>"

section \<open>Properties\<close>

subsection \<open>Minutes from milliseconds\<close>

lemma msToMinutes_finite:
  "msToMinutes (Num x) = Num (real_of_int (max 0 \<lfloor>x / 60000 + 1 / 2\<rfloor>))"
  by (simp add: msToMinutes_def div_60000_def Math_round_def Math_max_0_def max_def)

lemma round_of_int:
  "\<lfloor>real_of_int ms / 60000 + 1 / 2\<rfloor> = (ms + 30000) div 60000"
proof -
  have "real_of_int ms / 60000 + 1 / 2 = real_of_int (ms + 30000) / real_of_int 60000"
    by (simp add: field_simps)
  then show ?thesis
    by (simp only: floor_divide_of_int_eq)
qed

lemma msToMinutes_int:
  "msToMinutes (Num (real_of_int ms)) = Num (real_of_int (max 0 ((ms + 30000) div 60000)))"
  by (simp only: msToMinutes_finite round_of_int)

lemma nearest_minute:
  "2 * \<bar>60000 * max 0 ((ms + 30000) div 60000) - max 0 ms\<bar> \<le> (60000 :: int)"
proof -
  define q where "q = (ms + 30000) div 60000"
  define r where "r = (ms + 30000) mod 60000"
  have e: "ms + 30000 = 60000 * q + r" and r: "0 \<le> r" "r < 60000"
    by (simp_all add: q_def r_def)
  have "2 * \<bar>60000 * max 0 q - max 0 ms\<bar> \<le> 60000"
    using e r by (cases "0 \<le> q"; cases "0 \<le> ms") (auto simp: max_def abs_if)
  then show ?thesis by (simp add: q_def)
qed

lemma msToMinutes_values:
  "msToMinutes (Num 0) = Num 0" "msToMinutes (Num 59999) = Num 1"
  "msToMinutes (Num (- 1)) = Num 0" "msToMinutes (Num 90000) = Num 2"
  using msToMinutes_int [of 0] msToMinutes_int [of 59999] msToMinutes_int [of "- 1"]
    msToMinutes_int [of 90000]
  by simp_all

text \<open>
  Claim C7, in the form that holds. The conversion gives 0 for 0 ms, 1 for 59999 ms, 0 for
  -1 ms and 2 for 90000 ms. For every finite number of milliseconds the result is a
  nonnegative integer, and for every integer number of milliseconds it is the whole number of
  minutes nearest to the duration, a negative duration counting as zero.
\<close>

theorem msToMinutes_rounds_and_floors:
  "msToMinutes (Num 0) = Num 0 \<and> msToMinutes (Num 59999) = Num 1 \<and>
   msToMinutes (Num (- 1)) = Num 0 \<and> msToMinutes (Num 90000) = Num 2 \<and>
   (\<forall>x. \<exists>n. 0 \<le> n \<and> msToMinutes (Num x) = Num (real_of_int n)) \<and>
   (\<forall>ms. \<exists>n. 0 \<le> n \<and> msToMinutes (Num (real_of_int ms)) = Num (real_of_int n) \<and>
            2 * \<bar>60000 * n - max 0 ms\<bar> \<le> 60000)"
proof (intro conjI allI)
  show "\<exists>n. 0 \<le> n \<and> msToMinutes (Num x) = Num (real_of_int n)" for x
    by (rule exI [of _ "max 0 \<lfloor>x / 60000 + 1 / 2\<rfloor>"]) (simp add: msToMinutes_finite)
  show "\<exists>n. 0 \<le> n \<and> msToMinutes (Num (real_of_int ms)) = Num (real_of_int n) \<and>
            2 * \<bar>60000 * n - max 0 ms\<bar> \<le> 60000" for ms
    by (rule exI [of _ "max 0 ((ms + 30000) div 60000)"])
      (simp only: msToMinutes_int nearest_minute max.cobounded1 simp_thms)
qed (rule msToMinutes_values)+

text \<open>
  The claim as it stands asks a nonnegative integer of every input: \<^verbatim>\<open>NaN\<close> and
  \<^verbatim>\<open>Infinity\<close> pass through the rounding and through \<^verbatim>\<open>Math.max(0, \<dots>)\<close>.
\<close>

theorem msToMinutes_not_a_number_counterexample:
  "msToMinutes NaN = NaN \<and> msToMinutes Infinity = Infinity"
  by (simp add: msToMinutes_def div_60000_def Math_round_def Math_max_0_def)

subsection \<open>The target time\<close>

lemma test_HHmm_iff:
  "test_HHmm s \<longleftrightarrow>
     (\<exists>a b c d. s = [a, b, CHR '':'', c, d] \<and> is_digit a \<and> is_digit b \<and> is_digit c \<and> is_digit d)"
  by (induction s rule: test_HHmm.induct) auto

lemma set_then_get:
  "test_HHmm u \<Longrightarrow>
     bind (setDailyTargetTime u) (\<lambda>_. getDailyTargetTime) w =
       (Inr u, w\<lparr>dailyTargetHHmm := Some u\<rparr>)"
  by (auto simp: bind_def setDailyTargetTime_def getDailyTargetTime_def)

lemma test_HHmm_2359: "test_HHmm ''23:59''"
  by (simp add: is_digit_def)

text \<open>
  Claim C8. \<^verbatim>\<open>setDailyTargetTime\<close> accepts exactly the strings made of two digits, a colon
  and two digits, storing the string; every other string is rejected with
  \<open>InvalidTimeFormat\<close> and nothing is stored. "9:00" is rejected; "23:59" is accepted and
  the read that follows returns "23:59".
\<close>

theorem setDailyTargetTime_validates:
  "(test_HHmm s \<longleftrightarrow>
      (\<exists>a b c d. s = [a, b, CHR '':'', c, d] \<and>
                 is_digit a \<and> is_digit b \<and> is_digit c \<and> is_digit d)) \<and>
   setDailyTargetTime s w =
     (if test_HHmm s then (Inr (), w\<lparr>dailyTargetHHmm := Some s\<rparr>)
      else (Inl InvalidTimeFormat, w)) \<and>
   setDailyTargetTime ''9:00'' w = (Inl InvalidTimeFormat, w) \<and>
   bind (setDailyTargetTime ''23:59'') (\<lambda>_. getDailyTargetTime) w =
     (Inr ''23:59'', w\<lparr>dailyTargetHHmm := Some ''23:59''\<rparr>)"
proof (intro conjI)
  show "test_HHmm s \<longleftrightarrow>
      (\<exists>a b c d. s = [a, b, CHR '':'', c, d] \<and>
                 is_digit a \<and> is_digit b \<and> is_digit c \<and> is_digit d)"
    by (rule test_HHmm_iff)
  show "setDailyTargetTime s w =
     (if test_HHmm s then (Inr (), w\<lparr>dailyTargetHHmm := Some s\<rparr>)
      else (Inl InvalidTimeFormat, w))"
    by (simp add: setDailyTargetTime_def)
  show "setDailyTargetTime ''9:00'' w = (Inl InvalidTimeFormat, w)"
    by (simp add: setDailyTargetTime_def)
  show "bind (setDailyTargetTime ''23:59'') (\<lambda>_. getDailyTargetTime) w =
     (Inr ''23:59'', w\<lparr>dailyTargetHHmm := Some ''23:59''\<rparr>)"
    by (rule set_then_get [OF test_HHmm_2359])
qed

subsection \<open>The permission query\<close>

text \<open>
  Claim C10. \<^verbatim>\<open>hasUsageAccess\<close> always returns a boolean and never an error; off Android,
  without the native module, or when the module's permission query throws, the boolean is
  false.
\<close>

theorem hasUsageAccess_never_raises:
  "(\<exists>b. hasUsageAccess E = Inr b) \<and>
   (Platform_OS E \<noteq> Android \<or> native E = None \<or> \<not> isUsageStatsAvailable E \<or>
    (\<exists>m e. native E = Some m \<and> isUsageAccessGranted m = Some (Inl e))
      \<longrightarrow> hasUsageAccess E = Inr False)"
  by (auto simp: hasUsageAccess_def isUsageStatsAvailable_def split: option.splits sum.splits)

theorem hasUsageAccess_never_raises_witness:
  "(\<exists>m e. native env_query_throws = Some m \<and> isUsageAccessGranted m = Some (Inl e)) \<and>
   isUsageStatsAvailable env_query_throws \<and>
   hasUsageAccess env_query_throws = Inr False"
  using hasUsageAccess_never_raises [of env_query_throws]
  by (simp add: env_query_throws_def env_ok_def isUsageStatsAvailable_def)

subsection \<open>The preconditions\<close>

lemma hasUsageAccess_Inr: "\<exists>b. hasUsageAccess E = Inr b"
  by (auto simp: hasUsageAccess_def split: option.splits sum.splits)

lemma skipped_untouched:
  "\<not> preconditions_hold E \<Longrightarrow>
     fst (runIfDueNow E clock w) = Inr False \<and>
     persisted (snd (runIfDueNow E clock w)) = persisted w \<and>
     replies (snd (runIfDueNow E clock w)) = replies w"
  using hasUsageAccess_Inr [of E]
  by (auto simp: preconditions_hold_def runIfDueNow_def return_def bind_def log_def persisted_def)

lemma runIfDueNow_checked:
  "preconditions_hold E \<Longrightarrow>
     runIfDueNow E clock w =
       (if \<not> isSubmissionDue clock (stored_target w) w then (Inr False, w)
        else bind (collectAndSubmit E clock
                     \<lparr>at_opt = Some clock, targetHHmm = Some (stored_target w),
                      enforce = Some False\<rparr>)
               (\<lambda>_. bind (markSubmittedForToday clock) (\<lambda>_. return True)) w)"
  by (auto simp: preconditions_hold_def runIfDueNow_def bind_def stored_target_def
      getDailyTargetTime_def split: option.splits)

text \<open>
  Claim C6. The entry point checks platform, store configuration, native module and usage
  access in this order and stops at the first check that fails: off Android it returns false
  and does nothing at all (not even the message about the store); on Android without a
  configured store it logs that and returns false, whatever the module and the permission are;
  and so on. Whenever one of the four fails, the outcome is "false" and never an error, no
  request is sent to the store, and storage and tables are as before.
\<close>

theorem preconditions_short_circuit:
  "(Platform_OS E \<noteq> Android \<longrightarrow> runIfDueNow E clock w = (Inr False, w)) \<and>
   (Platform_OS E = Android \<and> \<not> isSupabaseConfigured E \<longrightarrow>
      runIfDueNow E clock w = (Inr False, w\<lparr>console := console w @ [SkipNotConfigured]\<rparr>)) \<and>
   (Platform_OS E = Android \<and> isSupabaseConfigured E \<and> \<not> isUsageStatsAvailable E \<longrightarrow>
      runIfDueNow E clock w = (Inr False, w\<lparr>console := console w @ [SkipNoNativeModule]\<rparr>)) \<and>
   (Platform_OS E = Android \<and> isSupabaseConfigured E \<and> isUsageStatsAvailable E \<and>
    hasUsageAccess E = Inr False \<longrightarrow>
      runIfDueNow E clock w = (Inr False, w\<lparr>console := console w @ [SkipNoUsageAccess]\<rparr>)) \<and>
   (\<not> preconditions_hold E \<longrightarrow>
      fst (runIfDueNow E clock w) = Inr False \<and>
      persisted (snd (runIfDueNow E clock w)) = persisted w \<and>
      replies (snd (runIfDueNow E clock w)) = replies w)"
proof (intro conjI impI)
  show "runIfDueNow E clock w = (Inr False, w)" if "Platform_OS E \<noteq> Android"
    using that by (simp add: runIfDueNow_def return_def)
  show "runIfDueNow E clock w = (Inr False, w\<lparr>console := console w @ [SkipNotConfigured]\<rparr>)"
    if "Platform_OS E = Android \<and> \<not> isSupabaseConfigured E"
    using that by (simp add: runIfDueNow_def return_def bind_def log_def)
  show "runIfDueNow E clock w = (Inr False, w\<lparr>console := console w @ [SkipNoNativeModule]\<rparr>)"
    if "Platform_OS E = Android \<and> isSupabaseConfigured E \<and> \<not> isUsageStatsAvailable E"
    using that by (simp add: runIfDueNow_def return_def bind_def log_def)
  show "runIfDueNow E clock w = (Inr False, w\<lparr>console := console w @ [SkipNoUsageAccess]\<rparr>)"
    if "Platform_OS E = Android \<and> isSupabaseConfigured E \<and> isUsageStatsAvailable E \<and>
        hasUsageAccess E = Inr False"
    using that by (simp add: runIfDueNow_def return_def bind_def log_def)
  show "fst (runIfDueNow E clock w) = Inr False" if "\<not> preconditions_hold E"
    using skipped_untouched [OF that] by simp
  show "persisted (snd (runIfDueNow E clock w)) = persisted w" if "\<not> preconditions_hold E"
    using skipped_untouched [OF that] by simp
  show "replies (snd (runIfDueNow E clock w)) = replies w" if "\<not> preconditions_hold E"
    using skipped_untouched [OF that] by simp
qed

lemma env_facts:
  "Platform_OS env_ios \<noteq> Android"
  "Platform_OS env_unconfigured = Android" "\<not> isSupabaseConfigured env_unconfigured"
  "Platform_OS env_no_module = Android" "isSupabaseConfigured env_no_module"
  "\<not> isUsageStatsAvailable env_no_module"
  "Platform_OS env_no_access = Android" "isSupabaseConfigured env_no_access"
  "isUsageStatsAvailable env_no_access" "hasUsageAccess env_no_access = Inr False"
  by (simp_all add: env_ios_def env_unconfigured_def env_no_module_def env_no_access_def
      env_ok_def isSupabaseConfigured_def truthy_def isUsageStatsAvailable_def hasUsageAccess_def)

theorem preconditions_short_circuit_witness:
  "Platform_OS env_ios \<noteq> Android \<and> \<not> isSupabaseConfigured env_ios \<and>
   runIfDueNow env_ios d2100 w0 = (Inr False, w0) \<and>
   Platform_OS env_unconfigured = Android \<and> \<not> isSupabaseConfigured env_unconfigured \<and>
   \<not> isUsageStatsAvailable env_unconfigured \<and>
   runIfDueNow env_unconfigured d2100 w0 = (Inr False, w0\<lparr>console := [SkipNotConfigured]\<rparr>) \<and>
   \<not> isUsageStatsAvailable env_no_module \<and>
   runIfDueNow env_no_module d2100 w0 = (Inr False, w0\<lparr>console := [SkipNoNativeModule]\<rparr>) \<and>
   hasUsageAccess env_no_access = Inr False \<and>
   runIfDueNow env_no_access d2100 w0 = (Inr False, w0\<lparr>console := [SkipNoUsageAccess]\<rparr>)"
  using preconditions_short_circuit [of env_ios d2100 w0]
    preconditions_short_circuit [of env_unconfigured d2100 w0]
    preconditions_short_circuit [of env_no_module d2100 w0]
    preconditions_short_circuit [of env_no_access d2100 w0]
    env_facts
  by (simp add: w0_def env_ios_def env_unconfigured_def env_ok_def isSupabaseConfigured_def truthy_def isUsageStatsAvailable_def)


subsection \<open>Runs that succeed\<close>

lemma client_env_ok: "getSupabaseClient env_ok = return ()"
  by (simp add: getSupabaseClient_def env_ok_def truthy_def trim_def is_space_def)

lemma supaSetDiaryEntry_success:
  assumes "getSupabaseClient E = return ()" and "replies w = []"
  shows "supaSetDiaryEntry E entry w =
           (Inr (), w\<lparr>diary_entries :=
                         filter (\<lambda>r. \<not> same_slot entry r) (diary_entries w) @
                           [toDiaryEntryInsert entry (next_entry_id w)],
                       next_entry_id := next_entry_id w + 1\<rparr>)"
  using assms by (simp add: supaSetDiaryEntry_def bind_def return_def request_def)

lemma submit_all_success:
  assumes "getSupabaseClient E = return ()"
  shows "replies w = [] \<Longrightarrow> \<exists>w'. submit_all E es w = (Inr (), w') \<and> replies w' = []"
proof (induction es arbitrary: w)
  case Nil
  then show ?case by (simp add: return_def)
next
  case (Cons entry es)
  show ?case
    using Cons.IH Cons.prems
    by (simp add: supaSetDiaryEntry_success [OF assms] bind_def)
qed

lemma collectAndSubmit_success:
  assumes "getSupabaseClient E = return ()" and "replies w = []"
    and "questionIds w = Some (ValidQids ids)"
    and "getTodayUsageSummary E = return summary"
  shows "\<exists>w'. collectAndSubmit E clock opts w = (Inr (), w')"
proof -
  obtain w' where "submit_all E (entries_of ids (toISODate (case at_opt opts of None \<Rightarrow> clock | Some d \<Rightarrow> d))
       (case targetHHmm opts of None \<Rightarrow> toHHmm (case at_opt opts of None \<Rightarrow> clock | Some d \<Rightarrow> d) | Some t \<Rightarrow> t) summary) w = (Inr (), w')"
    using submit_all_success [OF assms(1) assms(2)] by blast
  then show ?thesis
    using assms(3,4)
    by (simp add: collectAndSubmit_def Let_def bind_def return_def ensureUsageQuestions_def log_def)
qed

lemma runIfDueNow_success:
  assumes "preconditions_hold E" and "isSubmissionDue clock (stored_target w) w"
    and "getSupabaseClient E = return ()" and "replies w = []"
    and "questionIds w = Some (ValidQids ids)"
    and "getTodayUsageSummary E = return summary"
  shows "fst (runIfDueNow E clock w) = Inr True"
proof -
  obtain w' where "collectAndSubmit E clock
      \<lparr>at_opt = Some clock, targetHHmm = Some (stored_target w), enforce = Some False\<rparr> w = (Inr (), w')"
    using collectAndSubmit_success [OF assms(3-6)] by blast
  then show ?thesis
    using assms(2)
    by (simp add: runIfDueNow_checked [OF assms(1)] bind_def markSubmittedForToday_def return_def)
qed

lemma env_ok_facts:
  "preconditions_hold env_ok" "getTodayUsageSummary env_ok = return summary0"
  by (simp_all add: preconditions_hold_def env_ok_def isSupabaseConfigured_def truthy_def
      isUsageStatsAvailable_def hasUsageAccess_def getTodayUsageSummary_def)

lemma hhmm_2100: "hhmmToMinutes ''21:00'' = Some 1260"
  by (simp add: hhmmToMinutes_def Number_str_def is_digit_def digit_val_def)

lemma w0_facts:
  "stored_target w0 = ''21:00''" "replies w0 = []" "questionIds w0 = Some (ValidQids qids0)"
  "lastSubmittedISODate w0 = None"
  by (simp_all add: stored_target_def getDailyTargetTime_def w0_def is_digit_def)

lemma due_2100: "isSubmissionDue d2100 (stored_target w0) w0"
  by (simp add: w0_facts isSubmissionDue_def hhmm_2100 toMinutesSinceMidnight_def d2100_def)

lemma ran_2100: "fst (runIfDueNow env_ok d2100 w0) = Inr True"
  by (rule runIfDueNow_success [OF env_ok_facts(1) due_2100 client_env_ok w0_facts(2,3) env_ok_facts(2)])

subsection \<open>Once per day\<close>

lemma ran_sets_mark:
  "runIfDueNow E clock w = (Inr True, w') \<Longrightarrow> lastSubmittedISODate w' = Some (toISODate clock)"
  using hasUsageAccess_Inr [of E]
  by (auto simp: runIfDueNow_def return_def bind_def log_def markSubmittedForToday_def
      split: if_splits sum.splits prod.splits)

lemma toISODate_same_day: "same_local_day d d' \<Longrightarrow> toISODate d' = toISODate d"
  by (simp add: same_local_day_def toISODate_def)

lemma marked_untouched:
  assumes "lastSubmittedISODate w = Some (toISODate clock)"
  shows "fst (runIfDueNow E clock w) = Inr False \<and>
         persisted (snd (runIfDueNow E clock w)) = persisted w \<and>
         replies (snd (runIfDueNow E clock w)) = replies w"
proof (cases "preconditions_hold E")
  case True
  then show ?thesis using assms by (simp add: runIfDueNow_checked isSubmissionDue_def)
next
  case False
  then show ?thesis by (rule skipped_untouched)
qed

lemma persisted_mark: "persisted w' = persisted w \<Longrightarrow> lastSubmittedISODate w' = lastSubmittedISODate w"
  by (simp add: persisted_def)

lemma run_all_marked:
  "lastSubmittedISODate w = Some today \<Longrightarrow> \<forall>c \<in> set calls. toISODate (snd c) = today \<Longrightarrow>
     list_all (\<lambda>r. r = Inr False) (fst (run_all calls w)) \<and>
     persisted (snd (run_all calls w)) = persisted w \<and>
     replies (snd (run_all calls w)) = replies w"
proof (induction calls arbitrary: w)
  case Nil
  then show ?case by simp
next
  case (Cons c calls)
  obtain E clock where c: "c = (E, clock)" by (cases c)
  obtain r w' where r: "runIfDueNow E clock w = (r, w')" by (cases "runIfDueNow E clock w")
  have today: "toISODate clock = today" using Cons.prems(2) c by simp
  have m: "r = Inr False" "persisted w' = persisted w" "replies w' = replies w"
    using marked_untouched [of w clock E] Cons.prems(1) today r by simp_all
  have "lastSubmittedISODate w' = Some today"
    using persisted_mark [OF m(2)] Cons.prems(1) by simp
  then have IH: "list_all (\<lambda>r. r = Inr False) (fst (run_all calls w')) \<and>
     persisted (snd (run_all calls w')) = persisted w' \<and>
     replies (snd (run_all calls w')) = replies w'"
    using Cons.IH Cons.prems(2) by simp
  show ?case using IH m r c by (simp add: split_beta)
qed

text \<open>
  Claim C1. When an invocation of the entry point has returned true, the mark holds that day,
  and every later invocation on the same local day, in whatever environment and however
  many of them, returns false, sends no request to the store and leaves storage and tables as
  they were.
\<close>

theorem once_per_local_day:
  assumes "runIfDueNow E clock w = (Inr True, w1)"
    and "\<forall>c \<in> set calls. same_local_day clock (snd c)"
  shows "lastSubmittedISODate w1 = Some (toISODate clock) \<and>
         list_all (\<lambda>r. r = Inr False) (fst (run_all calls w1)) \<and>
         persisted (snd (run_all calls w1)) = persisted w1 \<and>
         replies (snd (run_all calls w1)) = replies w1"
proof -
  have mark: "lastSubmittedISODate w1 = Some (toISODate clock)"
    using assms(1) by (rule ran_sets_mark)
  have "\<forall>c \<in> set calls. toISODate (snd c) = toISODate clock"
    using assms(2) toISODate_same_day by blast
  then show ?thesis using run_all_marked [OF mark] mark by simp
qed

theorem once_per_local_day_witness:
  "fst (runIfDueNow env_ok d2100 w0) = Inr True \<and>
   same_local_day d2100 d2345 \<and> same_local_day d2100 d2059 \<and>
   fst (run_all [(env_ok, d2345), (env_no_access, d2059)] (snd (runIfDueNow env_ok d2100 w0)))
     = [Inr False, Inr False] \<and>
   persisted (snd (run_all [(env_ok, d2345), (env_no_access, d2059)]
                     (snd (runIfDueNow env_ok d2100 w0))))
     = persisted (snd (runIfDueNow env_ok d2100 w0))"
proof -
  have run: "runIfDueNow env_ok d2100 w0 = (Inr True, snd (runIfDueNow env_ok d2100 w0))"
    using ran_2100 by (simp add: prod_eq_iff)
  have days: "same_local_day d2100 d2345" "same_local_day d2100 d2059"
    by (simp_all add: same_local_day_def d2100_def d2345_def d2059_def)
  have calls: "\<forall>c \<in> set [(env_ok, d2345), (env_no_access, d2059)]. same_local_day d2100 (snd c)"
    using days by simp
  show ?thesis
    using once_per_local_day [OF run calls] ran_2100 days
    by (simp add: split_beta)
qed


subsection \<open>The due check\<close>












subsection \<open>A failing collector\<close>

lemma getTodayUsageSummary_reads: "snd (getTodayUsageSummary E w) = w"
  by (auto simp: getTodayUsageSummary_def throw_def return_def split: option.splits sum.splits)

lemma collectAndSubmit_collector_fails:
  "fst (getTodayUsageSummary E w) = Inl e \<Longrightarrow> collectAndSubmit E clock opts w = (Inl e, w)"
  using getTodayUsageSummary_reads [of E w]
  by (cases "getTodayUsageSummary E w") (simp add: collectAndSubmit_def bind_def Let_def)

text \<open>
  Claim C3. When the collector call fails, \<^verbatim>\<open>collectAndSubmit\<close> fails with that error
  and the world is exactly as before: no request was sent, so no question was created and no
  entry written. The manual trigger fails the same way; the entry point, when due, passes the
  error on without setting the mark, and in no case returns true or changes storage or
  tables.
\<close>

theorem collector_failure_changes_nothing:
  assumes "fst (getTodayUsageSummary E w) = Inl e"
  shows "collectAndSubmit E clock opts w = (Inl e, w) \<and>
         runOnceNow E clock w = (Inl e, w) \<and>
         (preconditions_hold E \<and> isSubmissionDue clock (stored_target w) w \<longrightarrow>
            runIfDueNow E clock w = (Inl e, w)) \<and>
         fst (runIfDueNow E clock w) \<noteq> Inr True \<and>
         persisted (snd (runIfDueNow E clock w)) = persisted w \<and>
         replies (snd (runIfDueNow E clock w)) = replies w"
proof -
  have c: "collectAndSubmit E clock opts w = (Inl e, w)" for opts
    using assms by (rule collectAndSubmit_collector_fails)
  have r: "fst (runIfDueNow E clock w) \<noteq> Inr True \<and>
         persisted (snd (runIfDueNow E clock w)) = persisted w \<and>
         replies (snd (runIfDueNow E clock w)) = replies w"
  proof (cases "preconditions_hold E")
    case True
    then show ?thesis by (simp add: runIfDueNow_checked c bind_def)
  next
    case False
    then show ?thesis using skipped_untouched [OF False, of clock w] by simp
  qed
  show ?thesis using c r by (simp add: runOnceNow_def runIfDueNow_checked bind_def)
qed

theorem collector_failure_changes_nothing_witness:
  "fst (getTodayUsageSummary env_collector_fails w0) = Inl (NativeRejected ''no stats'') \<and>
   preconditions_hold env_collector_fails \<and> isSubmissionDue d2100 (stored_target w0) w0 \<and>
   runIfDueNow env_collector_fails d2100 w0 = (Inl (NativeRejected ''no stats''), w0) \<and>
   runOnceNow env_collector_fails d2100 w0 = (Inl (NativeRejected ''no stats''), w0)"
proof -
  have f: "fst (getTodayUsageSummary env_collector_fails w0) = Inl (NativeRejected ''no stats'')"
    by (simp add: getTodayUsageSummary_def env_collector_fails_def env_ok_def
        isUsageStatsAvailable_def throw_def)
  have p: "preconditions_hold env_collector_fails"
    by (simp add: preconditions_hold_def env_collector_fails_def env_ok_def
        isSupabaseConfigured_def truthy_def isUsageStatsAvailable_def hasUsageAccess_def)
  show ?thesis
    using collector_failure_changes_nothing [OF f, of d2100] f p due_2100 by simp
qed

subsection \<open>Setting a diary entry\<close>

lemma same_slot_insert: "same_slot entry (toDiaryEntryInsert entry i)"
  by (simp add: same_slot_def toDiaryEntryInsert_def)

lemma supaSetDiaryEntry_result:
  assumes "supaSetDiaryEntry E entry w = (Inr (), w')"
  shows "diary_entries w' =
           filter (\<lambda>r. \<not> same_slot entry r) (diary_entries w) @
             [toDiaryEntryInsert entry (next_entry_id w)]"
  using assms
  by (auto simp: supaSetDiaryEntry_def bind_def getSupabaseClient_def throw_def return_def
      request_def split: if_splits list.splits option.splits sum.splits prod.splits)

text \<open>
  Claim C9. A successful \<^verbatim>\<open>supaSetDiaryEntry\<close> leaves the table as it was without the
  rows of the entry's (question, date, day reference), followed by the new row: exactly one
  row for that triple, and every other row kept. The delete comes first: when the insert
  request then fails, the old rows of the triple are gone and none is added.
\<close>

theorem setEntry_replaces:
  "(supaSetDiaryEntry E entry w = (Inr (), w') \<longrightarrow>
      diary_entries w' =
        filter (\<lambda>r. \<not> same_slot entry r) (diary_entries w) @
          [toDiaryEntryInsert entry (next_entry_id w)] \<and>
      filter (same_slot entry) (diary_entries w') =
        [toDiaryEntryInsert entry (next_entry_id w)] \<and>
      length (filter (same_slot entry) (diary_entries w')) = 1 \<and>
      filter (\<lambda>r. \<not> same_slot entry r) (diary_entries w') =
        filter (\<lambda>r. \<not> same_slot entry r) (diary_entries w)) \<and>
   (getSupabaseClient E = return () \<and> replies w = None # Some m # rs \<longrightarrow>
      supaSetDiaryEntry E entry w =
        (Inl (SupabaseError ''diary_entries insert (set)'' m),
         w\<lparr>diary_entries := filter (\<lambda>r. \<not> same_slot entry r) (diary_entries w),
           replies := rs\<rparr>))"
proof (intro conjI impI)
  assume ok: "supaSetDiaryEntry E entry w = (Inr (), w')"
  show "diary_entries w' =
        filter (\<lambda>r. \<not> same_slot entry r) (diary_entries w) @
          [toDiaryEntryInsert entry (next_entry_id w)]"
    by (rule supaSetDiaryEntry_result [OF ok])
  show "filter (same_slot entry) (diary_entries w') =
        [toDiaryEntryInsert entry (next_entry_id w)]"
    by (simp add: supaSetDiaryEntry_result [OF ok] same_slot_insert)
  show "length (filter (same_slot entry) (diary_entries w')) = 1"
    by (simp add: supaSetDiaryEntry_result [OF ok] same_slot_insert)
  show "filter (\<lambda>r. \<not> same_slot entry r) (diary_entries w') =
        filter (\<lambda>r. \<not> same_slot entry r) (diary_entries w)"
    by (simp add: supaSetDiaryEntry_result [OF ok] same_slot_insert)
next
  assume "getSupabaseClient E = return () \<and> replies w = None # Some m # rs"
  then show "supaSetDiaryEntry E entry w =
        (Inl (SupabaseError ''diary_entries insert (set)'' m),
         w\<lparr>diary_entries := filter (\<lambda>r. \<not> same_slot entry r) (diary_entries w),
           replies := rs\<rparr>)"
    by (simp add: supaSetDiaryEntry_def bind_def return_def request_def)
qed

theorem setEntry_replaces_witness:
  "fst (supaSetDiaryEntry env_ok e9 w9) = Inr () \<and>
   length (filter (same_slot e9) (diary_entries w9)) = 2 \<and>
   map row_id (diary_entries (snd (supaSetDiaryEntry env_ok e9 w9))) = [3, 4] \<and>
   filter (same_slot e9) (diary_entries (snd (supaSetDiaryEntry env_ok e9 w9))) =
     [\<lparr>row_id = 4, question_id = 1, date_r = ''2026-11-02'', time_r = ''21:00'',
       value_r = NumberValue (Num 121), for_day = ''today''\<rparr>] \<and>
   fst (supaSetDiaryEntry env_ok e9 (w9\<lparr>replies := [None, Some ''timeout'']\<rparr>)) =
     Inl (SupabaseError ''diary_entries insert (set)'' ''timeout'') \<and>
   map row_id (diary_entries
     (snd (supaSetDiaryEntry env_ok e9 (w9\<lparr>replies := [None, Some ''timeout'']\<rparr>)))) = [3]"
proof -
  let ?row3 = "\<lparr>row_id = 3, question_id = 1, date_r = ''2026-11-02'', time_r = ''09:00'',
                value_r = NumberValue (Num 8), for_day = ''yesterday''\<rparr>"
  let ?row4 = "\<lparr>row_id = 4, question_id = 1, date_r = ''2026-11-02'', time_r = ''21:00'',
                value_r = NumberValue (Num 121), for_day = ''today''\<rparr>"
  have r: "replies w9 = []" by (simp add: w9_def w0_def)
  have s: "supaSetDiaryEntry env_ok e9 w9 = (Inr (), snd (supaSetDiaryEntry env_ok e9 w9))"
    by (simp add: supaSetDiaryEntry_success [OF client_env_ok r])
  have v: "same_slot e9 r \<longleftrightarrow>
             question_id r = 1 \<and> date_r r = ''2026-11-02'' \<and> for_day r = ''today''" for r
    by (simp add: same_slot_def e9_def forDay_text_def)
  have old: "length (filter (same_slot e9) (diary_entries w9)) = 2"
    by (simp add: v w9_def)
  have kept: "filter (\<lambda>r. \<not> same_slot e9 r) (diary_entries w9) = [?row3]"
    by (simp add: v w9_def)
  have new: "toDiaryEntryInsert e9 (next_entry_id w9) = ?row4"
    by (simp add: toDiaryEntryInsert_def e9_def w9_def forDay_text_def)
  have ok: "fst (supaSetDiaryEntry env_ok e9 w9) = Inr ()"
    by (simp add: supaSetDiaryEntry_success [OF client_env_ok r])
  have "diary_entries (snd (supaSetDiaryEntry env_ok e9 w9)) =
          filter (\<lambda>r. \<not> same_slot e9 r) (diary_entries w9) @
            [toDiaryEntryInsert e9 (next_entry_id w9)]"
    using setEntry_replaces [of env_ok e9 w9 "snd (supaSetDiaryEntry env_ok e9 w9)"] s
    by blast
  then have after: "diary_entries (snd (supaSetDiaryEntry env_ok e9 w9)) = [?row3, ?row4]"
    by (simp only: kept new append.simps)
  have second: "supaSetDiaryEntry env_ok e9 (w9\<lparr>replies := [None, Some ''timeout'']\<rparr>) =
      (Inl (SupabaseError ''diary_entries insert (set)'' ''timeout''),
       w9\<lparr>replies := [None, Some ''timeout''],
          diary_entries := filter (\<lambda>r. \<not> same_slot e9 r) (diary_entries w9),
          replies := []\<rparr>)"
    using setEntry_replaces
      [of env_ok e9 "w9\<lparr>replies := [None, Some ''timeout'']\<rparr>" w9 "''timeout''" "[]"]
      client_env_ok by simp
  show ?thesis
    by (simp add: ok old after second kept) (simp add: v)
qed


subsection \<open>The question registry\<close>

lemma mapByText_snoc: "mapByText (xs @ [x]) = (mapByText xs)(question x \<mapsto> x)"
  by (simp add: mapByText_def)

lemma mapByText_last:
  "mapByText all t =
     (if filter (\<lambda>q. question q = t) all = [] then None
      else Some (last (filter (\<lambda>q. question q = t) all)))"
proof (induction all rule: rev_induct)
  case Nil
  show ?case by (simp add: mapByText_def)
next
  case (snoc x xs)
  show ?case
    by (cases "question x = t") (simp_all add: mapByText_snoc snoc.IH)
qed

lemma listing_text:
  "filter (\<lambda>q. question q = t) (listing qs) =
     sort_key (\<lambda>q. (order_q q, id_q q)) (filter (\<lambda>q. listed q \<and> question q = t) qs)"
  by (simp add: listing_def filter_sort conj_commute)

lemma sort_key_Nil_iff: "sort_key f xs = [] \<longleftrightarrow> xs = []"
  by (metis length_sort length_0_conv)

lemma find_by_text_append:
  assumes "\<forall>q \<in> set new. question q \<noteq> t"
  shows "find_by_text t (qs @ new) = find_by_text t qs"
proof -
  have "filter (\<lambda>q. listed q \<and> question q = t) new = []"
    using assms by (auto simp: filter_empty_conv)
  then have "filter (\<lambda>q. question q = t) (listing (qs @ new)) = filter (\<lambda>q. question q = t) (listing qs)"
    by (simp add: listing_text)
  then show ?thesis by (simp add: find_by_text_def mapByText_last)
qed

lemma find_by_text_new:
  assumes "mapByText (listing qs) t = None" and "listed q" and "question q = t"
  shows "find_by_text t (qs @ [q]) = Some (id_q q)"
proof -
  have "filter (\<lambda>q. question q = t) (listing qs) = []"
    using assms(1) by (simp add: mapByText_last split: if_splits)
  then have "filter (\<lambda>q. listed q \<and> question q = t) qs = []"
    by (simp add: listing_text sort_key_Nil_iff)
  then have "filter (\<lambda>q. question q = t) (listing (qs @ [q])) = [q]"
    using assms(2,3) by (simp add: listing_text)
  then show ?thesis by (simp add: find_by_text_def mapByText_last)
qed

lemma find_by_text_listed:
  assumes "find_by_text t qs = Some i"
  shows "\<exists>q \<in> set qs. listed q \<and> question q = t \<and> id_q q = i"
proof -
  let ?ys = "filter (\<lambda>q. question q = t) (listing qs)"
  have f: "?ys \<noteq> []" and i: "i = id_q (last ?ys)"
    using assms by (auto simp: find_by_text_def mapByText_last split: if_splits)
  have "last ?ys \<in> set ?ys"
    using f by (rule last_in_set)
  then show ?thesis using i by (auto simp: listing_def)
qed

lemma listed_find_by_text:
  assumes "q \<in> set qs" "listed q" "question q = t"
  shows "\<exists>i. find_by_text t qs = Some i"
proof -
  have "q \<in> set (filter (\<lambda>q. question q = t) (listing qs))"
    using assms by (simp add: listing_def)
  then have "filter (\<lambda>q. question q = t) (listing qs) \<noteq> []"
    by (metis empty_iff empty_set)
  then show ?thesis
    by (simp add: find_by_text_def mapByText_last)
qed


lemma bind_cases:
  assumes "bind m f w = (r, w')"
  obtains (fails) e where "m w = (Inl e, w')" "r = Inl e"
        | (goes_on) x w1 where "m w = (Inr x, w1)" "f x w1 = (r, w')"
  using assms by (auto simp: bind_def split: prod.splits sum.splits)

lemma supaGetQuestions_result:
  assumes "supaGetQuestions E w = (r, w')"
  shows "questions w' = questions w \<and> questionIds w' = questionIds w \<and>
         (\<forall>all. r = Inr all \<longrightarrow> all = listing (questions w) \<and> getSupabaseClient E = return ())"
  using assms
  by (auto simp: supaGetQuestions_def bind_def getSupabaseClient_def throw_def return_def
      request_def listing_def split: if_splits list.splits option.splits)

lemma supaGetQuestions_answers:
  assumes "getSupabaseClient E = return ()" and "replies w = [] \<or> (\<exists>rs. replies w = None # rs)"
  shows "\<exists>w'. supaGetQuestions E w = (Inr (listing (questions w)), w') \<and>
              questions w' = questions w \<and> questionIds w' = questionIds w"
  using assms
  by (auto simp: supaGetQuestions_def bind_def return_def request_def listing_def)

lemma ensure_result:
  assumes "ensure E all t a u w = (r, w')"
  obtains (found) q where "mapByText all t = Some q" "r = Inr (id_q q)" "w' = w"
        | (failed) e where "mapByText all t = None" "r = Inl e" "questions w' = questions w"
            "questionIds w' = questionIds w"
        | (created) "mapByText all t = None" "r = Inr (next_question_id w)"
            "questions w' =
               questions w @ [insert_row (new_question all t a u) (next_question_id w)]"
            "questionIds w' = questionIds w"
  using assms
  by (auto simp: ensure_def supaInsertQuestion_def bind_def getSupabaseClient_def throw_def
      return_def request_def Let_def insert_row_def
      split: if_splits list.splits option.splits)

lemma new_row_facts:
  "question (insert_row (new_question all t a u) i) = t"
  "id_q (insert_row (new_question all t a u) i) = i"
  "listed (insert_row (new_question all t a u) i)"
  "order_q (insert_row (new_question all t a u) i) = Some (int (length all) + 1)"
  "active (insert_row (new_question all t a u) i) = Some True"
  "timeOfDay (insert_row (new_question all t a u) i) = ''evening''"
  "refDay (insert_row (new_question all t a u) i) = ''today''"
  by (simp_all add: insert_row_def new_question_def listed_def)


lemma ensure_step:
  assumes run: "ensure E (listing qs0) t a u w = (Inr i, w')"
    and tab: "questions w = qs0 @ ex" and ex: "\<forall>q \<in> set ex. question q \<noteq> t"
  shows "find_by_text t (questions w') = Some i \<and>
         questionIds w' = questionIds w \<and>
         (\<exists>new. questions w' = questions w @ new \<and> (\<forall>q \<in> set new. question q = t))"
  using run
proof (cases rule: ensure_result)
  case (found q)
  have "find_by_text t qs0 = Some (id_q q)"
    using found(1) by (simp add: find_by_text_def)
  then have "find_by_text t (qs0 @ ex) = Some (id_q q)"
    by (simp only: find_by_text_append [OF ex])
  then show ?thesis using found tab by simp
next
  case (failed e)
  then show ?thesis by simp
next
  case created
  let ?row = "insert_row (new_question (listing qs0) t a u) (next_question_id w)"
  have "find_by_text t qs0 = None"
    using created(1) by (simp add: find_by_text_def)
  then have "find_by_text t (qs0 @ ex) = None"
    by (simp only: find_by_text_append [OF ex])
  then have none: "mapByText (listing (qs0 @ ex)) t = None"
    by (simp add: find_by_text_def)
  have "find_by_text t ((qs0 @ ex) @ [?row]) = Some (id_q ?row)"
    by (rule find_by_text_new [OF none]) (simp_all add: new_row_facts)
  then have "find_by_text t (questions w') = Some i"
    using created tab by (simp add: new_row_facts)
  moreover have "\<forall>q \<in> set [?row]. question q = t"
    by (simp add: new_row_facts)
  ultimately show ?thesis using created by blast
qed

lemma ensure_creates:
  assumes run: "ensure E all t a u w = (r, w')" and t: "t \<in> set auto_texts"
  shows "\<exists>new. questions w' = questions w @ new \<and> list_all (created_ok all) new"
  using run
proof (cases rule: ensure_result)
  case (found q)
  then show ?thesis by simp
next
  case (failed e)
  then show ?thesis by simp
next
  case created
  then show ?thesis using t by (simp add: created_ok_def new_row_facts)
qed

lemma texts_distinct: "distinct auto_texts"
  by (simp add: auto_texts_def Q_TEXT_TOTAL_def Q_TEXT_SOCIAL_def Q_TEXT_MUSIC_def
      Q_TEXT_LAST_APP_def)

lemma texts_differ:
  "Q_TEXT_TOTAL \<noteq> Q_TEXT_SOCIAL" "Q_TEXT_TOTAL \<noteq> Q_TEXT_MUSIC" "Q_TEXT_TOTAL \<noteq> Q_TEXT_LAST_APP"
  "Q_TEXT_SOCIAL \<noteq> Q_TEXT_MUSIC" "Q_TEXT_SOCIAL \<noteq> Q_TEXT_LAST_APP"
  "Q_TEXT_MUSIC \<noteq> Q_TEXT_LAST_APP"
  using texts_distinct by (auto simp: auto_texts_def)

lemma ensureUsageQuestions_uncached:
  "\<not> cache_valid w \<Longrightarrow>
     ensureUsageQuestions E w =
       bind (supaGetQuestions E) (\<lambda>all.
       bind (ensure E all Q_TEXT_TOTAL ''number'' (Some ''Min'')) (\<lambda>totalId.
       bind (ensure E all Q_TEXT_SOCIAL ''number'' (Some ''Min'')) (\<lambda>socialId.
       bind (ensure E all Q_TEXT_MUSIC ''number'' (Some ''Min'')) (\<lambda>musicId.
       bind (ensure E all Q_TEXT_LAST_APP ''text'' None) (\<lambda>lastAppId w'.
         (Inr \<lparr>totalMinutes = totalId, socialMinutes = socialId,
                musicMinutes = musicId, lastApp_id = lastAppId\<rparr>,
          w'\<lparr>questionIds := Some (ValidQids
                 \<lparr>totalMinutes = totalId, socialMinutes = socialId,
                  musicMinutes = musicId, lastApp_id = lastAppId\<rparr>)\<rparr>)))))) w"
  by (simp add: ensureUsageQuestions_def cache_valid_def Let_def
      split: option.splits stored_qids.splits)

lemma ensureUsageQuestions_cached:
  "cache_valid w \<Longrightarrow> snd (ensureUsageQuestions E w) = w"
  by (simp add: ensureUsageQuestions_def cache_valid_def split: option.splits stored_qids.splits)

text \<open>After a resolution that looked the questions up, a fresh listing finds all four.\<close>

lemma resolution_registers:
  assumes nc: "\<not> cache_valid w" and run: "ensureUsageQuestions E w = (Inr ids, w1)"
  shows "find_by_text Q_TEXT_TOTAL (questions w1) = Some (totalMinutes ids) \<and>
         find_by_text Q_TEXT_SOCIAL (questions w1) = Some (socialMinutes ids) \<and>
         find_by_text Q_TEXT_MUSIC (questions w1) = Some (musicMinutes ids) \<and>
         find_by_text Q_TEXT_LAST_APP (questions w1) = Some (lastApp_id ids) \<and>
         getSupabaseClient E = return ()"
proof -
  note run' = run [unfolded ensureUsageQuestions_uncached [OF nc]]
  from run' obtain all wa where
    sel: "supaGetQuestions E w = (Inr all, wa)" and
    r1: "bind (ensure E all Q_TEXT_TOTAL ''number'' (Some ''Min'')) (\<lambda>totalId.
       bind (ensure E all Q_TEXT_SOCIAL ''number'' (Some ''Min'')) (\<lambda>socialId.
       bind (ensure E all Q_TEXT_MUSIC ''number'' (Some ''Min'')) (\<lambda>musicId.
       bind (ensure E all Q_TEXT_LAST_APP ''text'' None) (\<lambda>lastAppId w'.
         (Inr \<lparr>totalMinutes = totalId, socialMinutes = socialId,
                musicMinutes = musicId, lastApp_id = lastAppId\<rparr>,
          w'\<lparr>questionIds := Some (ValidQids
                 \<lparr>totalMinutes = totalId, socialMinutes = socialId,
                  musicMinutes = musicId, lastApp_id = lastAppId\<rparr>)\<rparr>))))) wa = (Inr ids, w1)"
    by (cases rule: bind_cases) auto
  define qs0 where "qs0 = questions w"
  have all: "all = listing qs0" and qa: "questions wa = qs0 @ []" and cl: "getSupabaseClient E = return ()"
    using supaGetQuestions_result [OF sel] by (simp_all add: qs0_def)
  from r1 obtain i1 wb where
    e1: "ensure E all Q_TEXT_TOTAL ''number'' (Some ''Min'') wa = (Inr i1, wb)" and
    r2: "bind (ensure E all Q_TEXT_SOCIAL ''number'' (Some ''Min'')) (\<lambda>socialId.
       bind (ensure E all Q_TEXT_MUSIC ''number'' (Some ''Min'')) (\<lambda>musicId.
       bind (ensure E all Q_TEXT_LAST_APP ''text'' None) (\<lambda>lastAppId w'.
         (Inr \<lparr>totalMinutes = i1, socialMinutes = socialId,
                musicMinutes = musicId, lastApp_id = lastAppId\<rparr>,
          w'\<lparr>questionIds := Some (ValidQids
                 \<lparr>totalMinutes = i1, socialMinutes = socialId,
                  musicMinutes = musicId, lastApp_id = lastAppId\<rparr>)\<rparr>)))) wb = (Inr ids, w1)"
    by (cases rule: bind_cases) auto
  from r2 obtain i2 wc where
    e2: "ensure E all Q_TEXT_SOCIAL ''number'' (Some ''Min'') wb = (Inr i2, wc)" and
    r3: "bind (ensure E all Q_TEXT_MUSIC ''number'' (Some ''Min'')) (\<lambda>musicId.
       bind (ensure E all Q_TEXT_LAST_APP ''text'' None) (\<lambda>lastAppId w'.
         (Inr \<lparr>totalMinutes = i1, socialMinutes = i2,
                musicMinutes = musicId, lastApp_id = lastAppId\<rparr>,
          w'\<lparr>questionIds := Some (ValidQids
                 \<lparr>totalMinutes = i1, socialMinutes = i2,
                  musicMinutes = musicId, lastApp_id = lastAppId\<rparr>)\<rparr>))) wc = (Inr ids, w1)"
    by (cases rule: bind_cases) auto
  from r3 obtain i3 wd where
    e3: "ensure E all Q_TEXT_MUSIC ''number'' (Some ''Min'') wc = (Inr i3, wd)" and
    r4: "bind (ensure E all Q_TEXT_LAST_APP ''text'' None) (\<lambda>lastAppId w'.
         (Inr \<lparr>totalMinutes = i1, socialMinutes = i2,
                musicMinutes = i3, lastApp_id = lastAppId\<rparr>,
          w'\<lparr>questionIds := Some (ValidQids
                 \<lparr>totalMinutes = i1, socialMinutes = i2,
                  musicMinutes = i3, lastApp_id = lastAppId\<rparr>)\<rparr>)) wd = (Inr ids, w1)"
    by (cases rule: bind_cases) auto
  from r4 obtain i4 we where
    e4: "ensure E all Q_TEXT_LAST_APP ''text'' None wd = (Inr i4, we)" and
    fin: "ids = \<lparr>totalMinutes = i1, socialMinutes = i2, musicMinutes = i3, lastApp_id = i4\<rparr>"
      "w1 = we\<lparr>questionIds := Some (ValidQids ids)\<rparr>"
    by (cases rule: bind_cases) auto
  have x1: "\<forall>q \<in> set []. question q \<noteq> Q_TEXT_TOTAL" by simp
  from ensure_step [OF e1 [unfolded all] qa x1] obtain n1 where
    f1: "find_by_text Q_TEXT_TOTAL (questions wb) = Some i1" and
    q1: "questions wb = qs0 @ n1" "\<forall>q \<in> set n1. question q = Q_TEXT_TOTAL"
    using qa by auto
  have x2: "\<forall>q \<in> set n1. question q \<noteq> Q_TEXT_SOCIAL"
    using q1(2) texts_differ by auto
  from ensure_step [OF e2 [unfolded all] q1(1) x2] obtain n2 where
    f2: "find_by_text Q_TEXT_SOCIAL (questions wc) = Some i2" and
    q2: "questions wc = questions wb @ n2" "\<forall>q \<in> set n2. question q = Q_TEXT_SOCIAL"
    by blast
  have q2': "questions wc = qs0 @ (n1 @ n2)" using q1 q2 by simp
  have x3: "\<forall>q \<in> set (n1 @ n2). question q \<noteq> Q_TEXT_MUSIC"
    using q1(2) q2(2) texts_differ by auto
  from ensure_step [OF e3 [unfolded all] q2' x3] obtain n3 where
    f3: "find_by_text Q_TEXT_MUSIC (questions wd) = Some i3" and
    q3: "questions wd = questions wc @ n3" "\<forall>q \<in> set n3. question q = Q_TEXT_MUSIC"
    by blast
  have q3': "questions wd = qs0 @ (n1 @ n2 @ n3)" using q2' q3 by simp
  have x4: "\<forall>q \<in> set (n1 @ n2 @ n3). question q \<noteq> Q_TEXT_LAST_APP"
    using q1(2) q2(2) q3(2) texts_differ by auto
  from ensure_step [OF e4 [unfolded all] q3' x4] obtain n4 where
    f4: "find_by_text Q_TEXT_LAST_APP (questions we) = Some i4" and
    q4: "questions we = questions wd @ n4" "\<forall>q \<in> set n4. question q = Q_TEXT_LAST_APP"
    by blast
  have k1: "find_by_text Q_TEXT_TOTAL (questions we) = Some i1"
  proof -
    have "\<forall>q \<in> set (n2 @ n3 @ n4). question q \<noteq> Q_TEXT_TOTAL"
      using q2(2) q3(2) q4(2) texts_differ by auto
    then have "find_by_text Q_TEXT_TOTAL (questions wb @ (n2 @ n3 @ n4)) = Some i1"
      using f1 by (simp only: find_by_text_append)
    then show ?thesis using q2 q3 q4 by simp
  qed
  have k2: "find_by_text Q_TEXT_SOCIAL (questions we) = Some i2"
  proof -
    have "\<forall>q \<in> set (n3 @ n4). question q \<noteq> Q_TEXT_SOCIAL"
      using q3(2) q4(2) texts_differ by auto
    then have "find_by_text Q_TEXT_SOCIAL (questions wc @ (n3 @ n4)) = Some i2"
      using f2 by (simp only: find_by_text_append)
    then show ?thesis using q3 q4 by simp
  qed
  have k3: "find_by_text Q_TEXT_MUSIC (questions we) = Some i3"
  proof -
    have "\<forall>q \<in> set n4. question q \<noteq> Q_TEXT_MUSIC"
      using q4(2) texts_differ by auto
    then have "find_by_text Q_TEXT_MUSIC (questions wd @ n4) = Some i3"
      using f3 by (simp only: find_by_text_append)
    then show ?thesis using q4 by simp
  qed
  show ?thesis using k1 k2 k3 f4 fin cl by simp
qed


lemma grows_same: "questions w' = questions w \<Longrightarrow> grows all w w'"
  by (simp add: grows_def)

lemma grows_trans: "grows all w w1 \<Longrightarrow> grows all w1 w2 \<Longrightarrow> grows all w w2"
  by (auto simp: grows_def)

lemma ensure_bind_grows:
  assumes run: "bind (ensure E all t a u) k w = (r, w')" and t: "t \<in> set auto_texts"
    and rest: "\<And>x w1 r2 w2. k x w1 = (r2, w2) \<Longrightarrow> grows all w1 w2"
  shows "grows all w w'"
  using run
proof (cases rule: bind_cases)
  case (fails e)
  then show ?thesis using ensure_creates [OF _ t] by (simp add: grows_def)
next
  case (goes_on x w1)
  have "grows all w w1" using ensure_creates [OF goes_on(1) t] by (simp add: grows_def)
  then show ?thesis using rest [OF goes_on(2)] by (rule grows_trans)
qed

lemma resolution_creates:
  assumes "ensureUsageQuestions E w = (r, w')"
  shows "grows (listing (questions w)) w w'"
proof (cases "cache_valid w")
  case True
  then show ?thesis using assms ensureUsageQuestions_cached [OF True, of E] by (simp add: grows_same)
next
  case False
  note run = assms [unfolded ensureUsageQuestions_uncached [OF False]]
  from run show ?thesis
  proof (cases rule: bind_cases)
    case (fails e)
    then show ?thesis using supaGetQuestions_result [OF fails(1)] by (simp add: grows_same)
  next
    case (goes_on all wa)
    have all: "all = listing (questions w)" and qa: "questions wa = questions w"
      using supaGetQuestions_result [OF goes_on(1)] by simp_all
    have "grows all wa w'"
      using goes_on(2)
      apply (rule ensure_bind_grows, simp add: auto_texts_def)
      apply (erule ensure_bind_grows, simp add: auto_texts_def)
      apply (erule ensure_bind_grows, simp add: auto_texts_def)
      apply (erule ensure_bind_grows, simp add: auto_texts_def)
      apply (auto simp: grows_same)
      done
    then show ?thesis using all qa by (simp add: grows_def)
  qed
qed

lemma ensure_found: "mapByText all t = Some q \<Longrightarrow> ensure E all t a u w = (Inr (id_q q), w)"
  by (simp add: ensure_def return_def)

lemma find_by_text_Some:
  "find_by_text t qs = Some i \<Longrightarrow> \<exists>q. mapByText (listing qs) t = Some q \<and> id_q q = i"
  by (auto simp: find_by_text_def)

lemma resolution_reuses:
  assumes nc: "\<not> cache_valid w"
    and f: "find_by_text Q_TEXT_TOTAL (questions w) = Some (totalMinutes ids)"
      "find_by_text Q_TEXT_SOCIAL (questions w) = Some (socialMinutes ids)"
      "find_by_text Q_TEXT_MUSIC (questions w) = Some (musicMinutes ids)"
      "find_by_text Q_TEXT_LAST_APP (questions w) = Some (lastApp_id ids)"
  shows "questions (snd (ensureUsageQuestions E w)) = questions w \<and>
         (\<forall>ids'. fst (ensureUsageQuestions E w) = Inr ids' \<longrightarrow> ids' = ids) \<and>
         (getSupabaseClient E = return () \<and> (replies w = [] \<or> (\<exists>rs. replies w = None # rs)) \<longrightarrow>
            fst (ensureUsageQuestions E w) = Inr ids)"
proof -
  obtain r wa where sel: "supaGetQuestions E w = (r, wa)" by (cases "supaGetQuestions E w")
  have qa: "questions wa = questions w" using supaGetQuestions_result [OF sel] by simp
  have run: "ensureUsageQuestions E w =
      (case r of Inl e \<Rightarrow> (Inl e, wa)
       | Inr all \<Rightarrow> (Inr ids, wa\<lparr>questionIds := Some (ValidQids ids)\<rparr>))"
  proof (cases r)
    case (Inl e)
    then show ?thesis using sel by (simp add: ensureUsageQuestions_uncached [OF nc] bind_def)
  next
    case (Inr all)
    then have all: "all = listing (questions w)" using supaGetQuestions_result [OF sel] by simp
    obtain q1 q2 q3 q4 where
      m: "mapByText all Q_TEXT_TOTAL = Some q1" "id_q q1 = totalMinutes ids"
         "mapByText all Q_TEXT_SOCIAL = Some q2" "id_q q2 = socialMinutes ids"
         "mapByText all Q_TEXT_MUSIC = Some q3" "id_q q3 = musicMinutes ids"
         "mapByText all Q_TEXT_LAST_APP = Some q4" "id_q q4 = lastApp_id ids"
      using f [THEN find_by_text_Some] all by blast
    show ?thesis
      using sel Inr m
      by (simp add: ensureUsageQuestions_uncached [OF nc] bind_def ensure_found)
  qed
  have ans: "\<exists>all. r = Inr all"
    if "getSupabaseClient E = return () \<and> (replies w = [] \<or> (\<exists>rs. replies w = None # rs))"
    using supaGetQuestions_answers [of E w] that sel by auto
  show ?thesis
    using qa ans by (auto simp: run split: sum.splits)
qed

lemma w5_run:
  "map order_q (questions (snd (ensureUsageQuestions env_ok w5))) =
     [Some 50, Some 2, Some 2, Some 2, Some 2]"
  by code_simp

lemma w5r_run:
  "map order_q (questions (snd (ensureUsageQuestions env_ok w5_renumbered))) =
     [Some 1, Some 2, Some 2, Some 2, Some 2]"
  by code_simp

lemma w4_first: "ensureUsageQuestions env_ok w4 = (Inr qids0, w4)"
  by (simp add: ensureUsageQuestions_def w4_def w0_def)

lemma w4_lost_run:
  "fst (ensureUsageQuestions env_ok w4_lost) = Inr ids4"
  "map question (questions (snd (ensureUsageQuestions env_ok w4_lost))) =
     [Q_TEXT_TOTAL, Q_TEXT_SOCIAL, Q_TEXT_MUSIC, Q_TEXT_LAST_APP, Q_TEXT_TOTAL]"
  "replies (snd (ensureUsageQuestions env_ok w4_lost)) = []"
  by code_simp+


lemma w5r_ids: "fst (ensureUsageQuestions env_ok w5_renumbered) =
    Inr \<lparr>totalMinutes = 2, socialMinutes = 3, musicMinutes = 4, lastApp_id = 5\<rparr>"
  by code_simp

lemma option_order_next: "(x :: int option) \<le> Some n \<Longrightarrow> x < Some (n + 1)"
  by (cases x) auto

lemma created_order_value:
  assumes "ensureUsageQuestions E w = (r, w')"
  shows "\<exists>new. questions w' = questions w @ new \<and>
           (\<forall>q \<in> set new. order_q q = Some (int (length (listing (questions w))) + 1))"
proof -
  obtain new where n: "questions w' = questions w @ new"
      "list_all (created_ok (listing (questions w))) new"
    using resolution_creates [OF assms] by (auto simp: grows_def)
  have "order_q q = Some (int (length (listing (questions w))) + 1)" if "q \<in> set new" for q
    using n(2) that by (auto simp: list_all_iff created_ok_def)
  then show ?thesis using n(1) by auto
qed

text \<open>
  Claim C5, in the form that holds. Whatever a resolution of the registry creates is appended
  to the table. Each created question has an order value greater than the number of questions
  in the list the store returned, and so is ordered after every question of that list whose
  order value does not exceed that number; the first question created gets exactly that
  number plus one. (A listed question with a larger order value is not ordered before it.)
\<close>

theorem created_order_exceeds_count:
  assumes "ensureUsageQuestions E w = (r, w')"
  shows "\<exists>new. questions w' = questions w @ new \<and>
           (new \<noteq> [] \<longrightarrow> order_q (hd new) = Some (int (length (listing (questions w))) + 1)) \<and>
           (\<forall>q \<in> set new.
              Some (int (length (listing (questions w)))) < order_q q \<and>
              (\<forall>p \<in> set (listing (questions w)).
                 order_q p \<le> Some (int (length (listing (questions w)))) \<longrightarrow>
                 order_q p < order_q q))"
proof -
  obtain new where n: "questions w' = questions w @ new"
      "\<forall>q \<in> set new. order_q q = Some (int (length (listing (questions w))) + 1)"
    using created_order_value [OF assms] by blast
  have first: "new \<noteq> [] \<longrightarrow> order_q (hd new) = Some (int (length (listing (questions w))) + 1)"
    using n(2) by simp
  have rest: "\<forall>q \<in> set new.
      Some (int (length (listing (questions w)))) < order_q q \<and>
      (\<forall>p \<in> set (listing (questions w)).
         order_q p \<le> Some (int (length (listing (questions w)))) \<longrightarrow> order_q p < order_q q)"
    using n(2) option_order_next by simp
  show ?thesis using n(1) first rest by blast
qed

theorem created_order_exceeds_count_witness:
  "fst (ensureUsageQuestions env_ok w5_renumbered) =
     Inr \<lparr>totalMinutes = 2, socialMinutes = 3, musicMinutes = 4, lastApp_id = 5\<rparr> \<and>
   map order_q (listing (questions w5_renumbered)) = [Some 1] \<and>
   (\<exists>new. questions (snd (ensureUsageQuestions env_ok w5_renumbered)) =
            questions w5_renumbered @ new \<and> length new = 4 \<and>
          order_q (hd new) = Some 2 \<and>
          (\<forall>q \<in> set new. Some 1 < order_q q \<and>
             (\<forall>p \<in> set (listing (questions w5_renumbered)). order_q p < order_q q)))"
proof -
  have l: "listing (questions w5_renumbered) = [q_mood\<lparr>order_q := Some 1\<rparr>]"
    by (simp add: listing_def w5_renumbered_def w5_def listed_def q_mood_def)
  have run: "ensureUsageQuestions env_ok w5_renumbered =
      (fst (ensureUsageQuestions env_ok w5_renumbered),
       snd (ensureUsageQuestions env_ok w5_renumbered))"
    by simp
  obtain new where n:
    "questions (snd (ensureUsageQuestions env_ok w5_renumbered)) = questions w5_renumbered @ new"
    "new \<noteq> [] \<longrightarrow>
       order_q (hd new) = Some (int (length (listing (questions w5_renumbered))) + 1)"
    "\<forall>q \<in> set new.
       Some (int (length (listing (questions w5_renumbered)))) < order_q q \<and>
       (\<forall>p \<in> set (listing (questions w5_renumbered)).
          order_q p \<le> Some (int (length (listing (questions w5_renumbered)))) \<longrightarrow>
          order_q p < order_q q)"
    using created_order_exceeds_count [OF run] by blast
  have "length (questions (snd (ensureUsageQuestions env_ok w5_renumbered))) = 5"
    using arg_cong [OF w5r_run, of length] by simp
  then have "length (questions w5_renumbered @ new) = 5"
    by (simp only: n(1))
  then have len: "length new = 4"
    by (simp add: w5_renumbered_def)
  then have ne: "new \<noteq> []" by auto
  have first: "order_q (hd new) = Some 2"
    using n(2) ne by (simp add: l)
  have ord: "\<forall>q \<in> set new. Some 1 < order_q q \<and>
          (\<forall>p \<in> set (listing (questions w5_renumbered)). order_q p < order_q q)"
    using n(3) by (simp add: l)
  have ex: "\<exists>new. questions (snd (ensureUsageQuestions env_ok w5_renumbered)) =
            questions w5_renumbered @ new \<and> length new = 4 \<and>
          order_q (hd new) = Some 2 \<and>
          (\<forall>q \<in> set new. Some 1 < order_q q \<and>
             (\<forall>p \<in> set (listing (questions w5_renumbered)). order_q p < order_q q))"
    using n(1) len first ord by blast
  have one: "map order_q (listing (questions w5_renumbered)) = [Some 1]"
    by (simp add: l)
  show ?thesis
    using w5r_ids one ex by (intro conjI)
qed

text \<open>
  The claim as it stands asks an order value greater than that of every existing question:
  one listed question of order 50, and the created questions get a smaller one.
\<close>

theorem created_order_not_after_all_counterexample:
  "questions w5 = [q_mood] \<and> order_q q_mood = Some 50 \<and>
   map order_q (questions (snd (ensureUsageQuestions env_ok w5))) =
     [Some 50, Some 2, Some 2, Some 2, Some 2] \<and>
   \<not> (Some 50 < (Some 2 :: int option))"
proof -
  have a: "questions w5 = [q_mood]" by (simp add: w5_def)
  have b: "order_q q_mood = Some 50" by (simp add: q_mood_def)
  have c: "\<not> (Some 50 < (Some 2 :: int option))" by simp
  show ?thesis using a b w5_run c by (intro conjI)
qed

text \<open>
  Two resolutions that both look the questions up. Let a resolution that finds no valid cache
  succeed with identifiers \<open>ids\<close>. A second resolution on the table it left, the cache
  being lost, creates no question; where it returns identifiers they are \<open>ids\<close>, and it does
  return them when the store answers its listing request. The first resolution creates
  questions only for such of the four texts as the listing does not hold, and for a text the
  listing holds it returns the identifier the lookup finds.
\<close>

lemma registry_round_trip:
  assumes "\<not> cache_valid w" and "ensureUsageQuestions E w = (Inr ids, w1)"
    and "\<not> cache_valid w2" and "questions w2 = questions w1"
  shows "questions (snd (ensureUsageQuestions E w2)) = questions w1 \<and>
         (\<forall>ids'. fst (ensureUsageQuestions E w2) = Inr ids' \<longrightarrow> ids' = ids) \<and>
         (replies w2 = [] \<or> (\<exists>rs. replies w2 = None # rs) \<longrightarrow>
            fst (ensureUsageQuestions E w2) = Inr ids) \<and>
         (\<exists>new. questions w1 = questions w @ new \<and>
            list_all (\<lambda>q. question q \<in> set auto_texts \<and>
                          find_by_text (question q) (questions w) = None) new) \<and>
         (\<forall>i. find_by_text Q_TEXT_TOTAL (questions w) = Some i \<longrightarrow> totalMinutes ids = i) \<and>
         (\<forall>i. find_by_text Q_TEXT_SOCIAL (questions w) = Some i \<longrightarrow> socialMinutes ids = i) \<and>
         (\<forall>i. find_by_text Q_TEXT_MUSIC (questions w) = Some i \<longrightarrow> musicMinutes ids = i) \<and>
         (\<forall>i. find_by_text Q_TEXT_LAST_APP (questions w) = Some i \<longrightarrow> lastApp_id ids = i)"
proof -
  note reg = resolution_registers [OF assms(1,2)]
  have f2: "find_by_text Q_TEXT_TOTAL (questions w2) = Some (totalMinutes ids)"
    "find_by_text Q_TEXT_SOCIAL (questions w2) = Some (socialMinutes ids)"
    "find_by_text Q_TEXT_MUSIC (questions w2) = Some (musicMinutes ids)"
    "find_by_text Q_TEXT_LAST_APP (questions w2) = Some (lastApp_id ids)"
    using reg assms(4) by simp_all
  have cl: "getSupabaseClient E = return ()" using reg by simp
  note second = resolution_reuses [OF assms(3) f2, of E]
  obtain new where n: "questions w1 = questions w @ new"
      "list_all (created_ok (listing (questions w))) new"
    using resolution_creates [OF assms(2)] by (auto simp: grows_def)
  have unl: "question q \<in> set auto_texts \<and> find_by_text (question q) (questions w) = None"
    if "q \<in> set new" for q
    using n(2) that by (auto simp: list_all_iff created_ok_def find_by_text_def)
  have keep: "find_by_text t (questions w1) = Some i" if "find_by_text t (questions w) = Some i" for t i
  proof -
    have "\<forall>q \<in> set new. question q \<noteq> t" using unl that by auto
    then show ?thesis using that by (simp only: n(1) find_by_text_append)
  qed
  show ?thesis
  proof (intro conjI)
    show "questions (snd (ensureUsageQuestions E w2)) = questions w1"
      using second assms(4) by simp
    show "\<forall>ids'. fst (ensureUsageQuestions E w2) = Inr ids' \<longrightarrow> ids' = ids"
      using second by simp
    show "replies w2 = [] \<or> (\<exists>rs. replies w2 = None # rs) \<longrightarrow>
            fst (ensureUsageQuestions E w2) = Inr ids"
      using second cl by blast
    show "\<exists>new. questions w1 = questions w @ new \<and>
            list_all (\<lambda>q. question q \<in> set auto_texts \<and>
                          find_by_text (question q) (questions w) = None) new"
      using n(1) unl by (auto simp: list_all_iff)
    show "\<forall>i. find_by_text Q_TEXT_TOTAL (questions w) = Some i \<longrightarrow> totalMinutes ids = i"
    proof (intro allI impI)
      fix i
      assume "find_by_text Q_TEXT_TOTAL (questions w) = Some i"
      from keep [OF this] reg show "totalMinutes ids = i" by simp
    qed
    show "\<forall>i. find_by_text Q_TEXT_SOCIAL (questions w) = Some i \<longrightarrow> socialMinutes ids = i"
    proof (intro allI impI)
      fix i
      assume "find_by_text Q_TEXT_SOCIAL (questions w) = Some i"
      from keep [OF this] reg show "socialMinutes ids = i" by simp
    qed
    show "\<forall>i. find_by_text Q_TEXT_MUSIC (questions w) = Some i \<longrightarrow> musicMinutes ids = i"
    proof (intro allI impI)
      fix i
      assume "find_by_text Q_TEXT_MUSIC (questions w) = Some i"
      from keep [OF this] reg show "musicMinutes ids = i" by simp
    qed
    show "\<forall>i. find_by_text Q_TEXT_LAST_APP (questions w) = Some i \<longrightarrow> lastApp_id ids = i"
    proof (intro allI impI)
      fix i
      assume "find_by_text Q_TEXT_LAST_APP (questions w) = Some i"
      from keep [OF this] reg show "lastApp_id ids = i" by simp
    qed
  qed
qed

lemma registry_round_trip_example:
  "\<not> cache_valid w4_lost \<and>
   fst (ensureUsageQuestions env_ok w4_lost) = Inr ids4 \<and>
   find_by_text Q_TEXT_SOCIAL (questions w4_lost) = Some 2 \<and> socialMinutes ids4 = 2 \<and>
   fst (ensureUsageQuestions env_ok
          ((snd (ensureUsageQuestions env_ok w4_lost))\<lparr>questionIds := None\<rparr>)) = Inr ids4 \<and>
   questions (snd (ensureUsageQuestions env_ok
          ((snd (ensureUsageQuestions env_ok w4_lost))\<lparr>questionIds := None\<rparr>))) =
     questions (snd (ensureUsageQuestions env_ok w4_lost))"
proof -
  let ?w1 = "snd (ensureUsageQuestions env_ok w4_lost)"
  have nc: "\<not> cache_valid w4_lost" "\<not> cache_valid (?w1\<lparr>questionIds := None\<rparr>)"
    by (simp_all add: cache_valid_def w4_lost_def)
  have run: "ensureUsageQuestions env_ok w4_lost = (Inr ids4, ?w1)"
    using w4_lost_run(1) by (simp add: prod_eq_iff)
  have same: "questions (?w1\<lparr>questionIds := None\<rparr>) = questions ?w1" by simp
  have rep: "replies (?w1\<lparr>questionIds := None\<rparr>) = []" using w4_lost_run(3) by simp
  have f: "find_by_text Q_TEXT_SOCIAL (questions w4_lost) = Some 2"
    by code_simp
  note rt = registry_round_trip [OF nc(1) run nc(2) same]
  have a: "questions (snd (ensureUsageQuestions env_ok (?w1\<lparr>questionIds := None\<rparr>))) =
             questions ?w1"
    using rt by (rule conjunct1)
  have b: "fst (ensureUsageQuestions env_ok (?w1\<lparr>questionIds := None\<rparr>)) = Inr ids4"
    using rt [THEN conjunct2, THEN conjunct2, THEN conjunct1] rep by blast
  have c: "socialMinutes ids4 = 2"
    using rt [THEN conjunct2, THEN conjunct2, THEN conjunct2, THEN conjunct2, THEN conjunct2,
        THEN conjunct1] f by blast
  show ?thesis
    using nc(1) w4_lost_run(1) f c b a by (intro conjI)
qed

text \<open>
  Claim C4. The claim asks that a question whose text already exists in the store is reused
  and never created again, as the file's own comments do ("These questions are created once
  if they don't exist yet", "Lookup existing by text"). The code at an input where it does
  otherwise: the table holds the four automatic questions with identifiers 1 to 4, the first
  of them deactivated, and the cache holds these identifiers. The first resolution answers
  from the cache. After the cache is lost, the second resolution looks the questions up in a
  listing that leaves the deactivated one out: it creates a second question with the text of
  question 1 and returns the new identifier 5 in place of 1.
\<close>

theorem inactive_question_is_duplicated:
  "ensureUsageQuestions env_ok w4 = (Inr qids0, w4) \<and>
   map question (questions w4) = [Q_TEXT_TOTAL, Q_TEXT_SOCIAL, Q_TEXT_MUSIC, Q_TEXT_LAST_APP] \<and>
   map id_q (questions w4) = [1, 2, 3, 4] \<and>
   fst (ensureUsageQuestions env_ok (w4\<lparr>questionIds := None\<rparr>)) =
     Inr \<lparr>totalMinutes = 5, socialMinutes = 2, musicMinutes = 3, lastApp_id = 4\<rparr> \<and>
   map question (questions (snd (ensureUsageQuestions env_ok (w4\<lparr>questionIds := None\<rparr>)))) =
     [Q_TEXT_TOTAL, Q_TEXT_SOCIAL, Q_TEXT_MUSIC, Q_TEXT_LAST_APP, Q_TEXT_TOTAL]"
proof -
  have a: "map question (questions w4) =
      [Q_TEXT_TOTAL, Q_TEXT_SOCIAL, Q_TEXT_MUSIC, Q_TEXT_LAST_APP]"
    by (simp add: w4_def auto_row_def)
  have b: "map id_q (questions w4) = [1, 2, 3, 4]"
    by (simp add: w4_def auto_row_def)
  show ?thesis
    using w4_first a b w4_lost_run(1,2) [unfolded w4_lost_def ids4_def] by (intro conjI)
qed

end
